theory Spec2Isabelle
  imports Complex_Main
begin

section \<open>Numbers\<close>

text \<open>
  Every number of the program is an IEEE double. The development reads them as real
  numbers: rounding error, NaN, the infinities and the sign of zero are left out.
  The JavaScript remainder \<^verbatim>\<open>a % b\<close> truncates the quotient towards zero, so its result
  carries the sign of \<open>a\<close>.
\<close>

definition js_trunc :: "real \<Rightarrow> int" where
  "js_trunc x = (if 0 \<le> x then \<lfloor>x\<rfloor> else - \<lfloor>- x\<rfloor>)"

definition js_rem :: "real \<Rightarrow> real \<Rightarrow> real" where
  "js_rem a b = a - b * of_int (js_trunc (a / b))"

section \<open>Angle arithmetic of the compass estimator (useTiltCompensatedCompass.ts)\<close>

text \<open>\<^verbatim>\<open>return ((angle % 360) + 360) % 360;\<close>\<close>

definition normalizeAngle :: "real \<Rightarrow> real" where
  "normalizeAngle angle = js_rem (js_rem angle 360 + 360) 360"

text \<open>
  \<^verbatim>\<open>let delta = to - from; if (delta > 180) delta -= 360; if (delta < -180) delta += 360;\<close>
  Each adjustment is applied at most once.
\<close>

definition shortestDelta :: "real \<Rightarrow> real \<Rightarrow> real" where
  "shortestDelta from to =
     (let delta = to - from;
          delta = (if delta > 180 then delta - 360 else delta);
          delta = (if delta < - 180 then delta + 360 else delta)
      in delta)"

section \<open>Angle deviation of the alignment evaluator (alignmentStatus.ts)\<close>

text \<open>
  \<^verbatim>\<open>while (deviation > 180) deviation -= 360;\<close> and
  \<^verbatim>\<open>while (deviation < -180) deviation += 360;\<close> are the two loops of
  \<open>calculateAngleDeviation\<close>, run one after the other. Over the reals both end: the
  number of remaining turns decreases.
\<close>

lemma wrap_down_decreases:
  assumes "(180::real) < d"
  shows "nat \<lceil>(d - 360) / 360\<rceil> < nat \<lceil>d / 360\<rceil>"
proof -
  have "(d - 360) / 360 = d / 360 - 1" by (simp add: diff_divide_distrib)
  then have "\<lceil>(d - 360) / 360\<rceil> = \<lceil>d / 360\<rceil> - 1" by (simp only: ceiling_diff_one)
  moreover have "0 < \<lceil>d / 360\<rceil>" using assms by (simp add: ceiling_less_iff)
  ultimately show ?thesis by simp
qed

lemma wrap_up_decreases:
  assumes "d < (- 180::real)"
  shows "nat \<lceil>- (d + 360) / 360\<rceil> < nat \<lceil>- d / 360\<rceil>"
proof -
  have "- (d + 360) / 360 = - d / 360 - 1" by (simp add: field_simps)
  then have "\<lceil>- (d + 360) / 360\<rceil> = \<lceil>- d / 360\<rceil> - 1" by (simp only: ceiling_diff_one)
  moreover have "0 < \<lceil>- d / 360\<rceil>" using assms by (simp add: ceiling_less_iff)
  ultimately show ?thesis by simp
qed

function wrap_down :: "real \<Rightarrow> real" where
  "wrap_down deviation = (if deviation > 180 then wrap_down (deviation - 360) else deviation)"
  by pat_completeness auto
termination
  by (relation "measure (\<lambda>d. nat \<lceil>d / 360\<rceil>)")
     (simp, simp only: in_measure, erule wrap_down_decreases)

function wrap_up :: "real \<Rightarrow> real" where
  "wrap_up deviation = (if deviation < - 180 then wrap_up (deviation + 360) else deviation)"
  by pat_completeness auto
termination
  by (relation "measure (\<lambda>d. nat \<lceil>- d / 360\<rceil>)")
     (simp, simp only: in_measure, erule wrap_up_decreases)

declare wrap_down.simps [simp del] wrap_up.simps [simp del]

definition calculateAngleDeviation :: "real \<Rightarrow> real \<Rightarrow> real" where
  "calculateAngleDeviation current target = wrap_up (wrap_down (current - target))"

section \<open>Tilt-compensated compass estimator (useTiltCompensatedCompass.ts)\<close>

text \<open>A sensor measurement \<^verbatim>\<open>{x, y, z}\<close> is read as the triple \<open>(x, y, z)\<close>.\<close>

type_synonym vec3 = "real \<times> real \<times> real"

text \<open>\<^verbatim>\<open>Math.atan2(y, x)\<close> over the reals (the sign of zero is not tracked).\<close>

definition js_atan2 :: "real \<Rightarrow> real \<Rightarrow> real" where
  "js_atan2 y x =
     (if 0 < x then arctan (y / x)
      else if x < 0 then (if 0 \<le> y then arctan (y / x) + pi else arctan (y / x) - pi)
      else if 0 < y then pi / 2
      else if y < 0 then - (pi / 2)
      else 0)"

text \<open>
  \<^verbatim>\<open>const SMOOTHING_FACTOR = Platform.OS === 'android' ? 0.15 : 0.25;\<close>
  The platform is a parameter of the model.
\<close>

definition SMOOTHING_FACTOR :: "bool \<Rightarrow> real" where
  "SMOOTHING_FACTOR android = (if android then 0.15 else 0.25)"

definition TILT_SMOOTHING :: real where
  "TILT_SMOOTHING = 0.3"

definition normalize :: "real \<Rightarrow> real \<Rightarrow> real \<Rightarrow> vec3" where
  "normalize x y z =
     (let mag = sqrt (x * x + y * y + z * z)
      in if mag = 0 then (0, 0, 0) else (x / mag, y / mag, z / mag))"

definition cross :: "real \<Rightarrow> real \<Rightarrow> real \<Rightarrow> real \<Rightarrow> real \<Rightarrow> real \<Rightarrow> vec3" where
  "cross ax ay az bx by bz = (ay * bz - az * by, az * bx - ax * bz, ax * by - ay * bx)"

definition calculateTiltCompensatedHeading :: "vec3 \<Rightarrow> vec3 \<Rightarrow> real" where
  "calculateTiltCompensatedHeading accel mag =
     (let (gx, gy, gz) = (case accel of (ax, ay, az) \<Rightarrow> normalize ax ay az);
          (mx, my, mz) = mag;
          (ex, ey, ez) = cross mx my mz gx gy gz;
          (ex, ey, ez) = normalize ex ey ez;
          (nx, ny, nz) = cross gx gy gz ex ey ez;
          (nx, ny, nz) = normalize nx ny nz;
          headingRad = js_atan2 ey ny;
          headingDeg = headingRad * (180 / pi)
      in normalizeAngle (- headingDeg))"

text \<open>
  The published \<open>CompassState\<close> and, around it, the refs of the hook: the latest sensor
  readings, the continuous angle, the smoothed tilt and roll, and the initialised flag.
\<close>

record CompassState =
  heading :: real
  rawHeading :: real
  tilt :: real
  roll :: real
  isAvailable :: bool
  error :: "string option"

record compass =
  state :: CompassState
  accelRef :: "vec3 option"
  magRef :: "vec3 option"
  continuousAngleRef :: real
  smoothedTiltRef :: real
  smoothedRollRef :: real
  initializedRef :: bool

text \<open>The hook as mounted: the initial \<^verbatim>\<open>useState\<close> and \<^verbatim>\<open>useRef\<close> values.\<close>

definition useTiltCompensatedCompass :: compass where
  "useTiltCompensatedCompass =
     \<lparr>state = \<lparr>heading = 0, rawHeading = 0, tilt = 0, roll = 0, isAvailable = False, error = None\<rparr>,
      accelRef = None, magRef = None, continuousAngleRef = 0, smoothedTiltRef = 0,
      smoothedRollRef = 0, initializedRef = False\<rparr>"

text \<open>
  The end of \<open>updateHeading\<close>: the display heading is normalized, snapped to 0 from 359.5
  upwards, and published with the continuous value by \<^verbatim>\<open>setState\<close>.
\<close>

definition publish :: "compass \<Rightarrow> compass" where
  "publish c =
     (let displayHeading = normalizeAngle (continuousAngleRef c);
          finalDisplay = (if displayHeading \<ge> 359.5 then 0 else displayHeading)
      in c\<lparr>state := (state c)\<lparr>heading := finalDisplay,
                               rawHeading := continuousAngleRef c,
                               tilt := max 0 (min 90 (smoothedTiltRef c)),
                               roll := smoothedRollRef c\<rparr>\<rparr>)"

text \<open>\<open>updateHeading\<close> returns at once while either sensor has not reported yet.\<close>

definition updateHeading :: "bool \<Rightarrow> compass \<Rightarrow> compass" where
  "updateHeading android c =
     (case (accelRef c, magRef c) of
        (Some accel, Some mag) \<Rightarrow>
          (let (ax, ay, az) = accel;
               pitch = js_atan2 ay (sqrt (ax * ax + az * az));
               tiltDegrees = \<bar>pitch * (180 / pi)\<bar>;
               roll = js_atan2 ax (sqrt (ay * ay + az * az));
               rollDegrees = roll * (180 / pi);
               c = c\<lparr>smoothedTiltRef := smoothedTiltRef c + (tiltDegrees - smoothedTiltRef c) * TILT_SMOOTHING\<rparr>;
               c = c\<lparr>smoothedRollRef := smoothedRollRef c + (rollDegrees - smoothedRollRef c) * TILT_SMOOTHING\<rparr>;
               rawHeading = calculateTiltCompensatedHeading accel mag;
               c = (if \<not> initializedRef c
                    then c\<lparr>continuousAngleRef := rawHeading, initializedRef := True\<rparr>
                    else
                      let delta = shortestDelta (normalizeAngle (continuousAngleRef c)) rawHeading
                      in if \<bar>delta\<bar> > 0.3
                         then c\<lparr>continuousAngleRef := continuousAngleRef c + delta * SMOOTHING_FACTOR android\<rparr>
                         else c)
           in publish c)
      | _ \<Rightarrow> c)"

definition handleAccelerometer :: "bool \<Rightarrow> vec3 \<Rightarrow> compass \<Rightarrow> compass" where
  "handleAccelerometer android data c = updateHeading android (c\<lparr>accelRef := Some data\<rparr>)"

definition handleMagnetometer :: "bool \<Rightarrow> vec3 \<Rightarrow> compass \<Rightarrow> compass" where
  "handleMagnetometer android data c = updateHeading android (c\<lparr>magRef := Some data\<rparr>)"

section \<open>Tilt formulas of the solar target calculator\<close>

text \<open>
  \<^verbatim>\<open>const lat = Math.abs(latitude);\<close>
  \<^verbatim>\<open>return 1.3793 + lat * (1.2011 + lat * (-0.014404 + lat * 0.000080509));\<close>
\<close>

definition getJacobsonTilt :: "real \<Rightarrow> real" where
  "getJacobsonTilt latitude =
     (let lat = \<bar>latitude\<bar>
      in 1.3793 + lat * (1.2011 + lat * (- 0.014404 + lat * 0.000080509)))"

text \<open>The same polynomial with the coefficients as the specification prints them.\<close>

definition spec_regression_B :: "real \<Rightarrow> real" where
  "spec_regression_B latitude =
     (let L = \<bar>latitude\<bar>
      in 1.3793 + L * (1.2011 + L * (- 0.014404 + L * 0.0000805)))"

section \<open>Haptic guidance scheduler (useHapticFeedback.ts)\<close>

text \<open>
  The hook keeps three refs (\<open>intervalRef\<close>, \<open>lastIntensityRef\<close>, \<open>isLockedRef\<close>) and one
  effect with the dependencies \<open>[enabled, deviation, getIntensity, triggerHaptic]\<close>;
  \<open>getIntensity\<close> changes identity exactly when \<open>lockThreshold\<close> does and \<open>triggerHaptic\<close>
  never. A pulse is a call of \<open>triggerHaptic\<close>, recorded by its intensity argument.
\<close>

datatype HapticIntensity = none | approaching | close | very_close | locked

definition HAPTIC_THRESHOLDS_VERY_CLOSE :: real where "HAPTIC_THRESHOLDS_VERY_CLOSE = 2"
definition HAPTIC_THRESHOLDS_CLOSE :: real where "HAPTIC_THRESHOLDS_CLOSE = 5"
definition HAPTIC_THRESHOLDS_APPROACHING :: real where "HAPTIC_THRESHOLDS_APPROACHING = 10"

definition HAPTIC_INTERVALS_VERY_CLOSE :: nat where "HAPTIC_INTERVALS_VERY_CLOSE = 100"
definition HAPTIC_INTERVALS_CLOSE :: nat where "HAPTIC_INTERVALS_CLOSE = 250"
definition HAPTIC_INTERVALS_APPROACHING :: nat where "HAPTIC_INTERVALS_APPROACHING = 500"

definition getIntensity :: "real \<Rightarrow> real \<Rightarrow> HapticIntensity" where
  "getIntensity lockThreshold dev =
     (let absDev = \<bar>dev\<bar>
      in if absDev \<le> lockThreshold then locked
         else if absDev \<le> HAPTIC_THRESHOLDS_VERY_CLOSE then very_close
         else if absDev \<le> HAPTIC_THRESHOLDS_CLOSE then close
         else if absDev \<le> HAPTIC_THRESHOLDS_APPROACHING then approaching
         else none)"

text \<open>
  A running \<^verbatim>\<open>setInterval\<close>: the intensity its callback captured, its period in
  milliseconds and the time since it last fired.
\<close>

record interval_timer =
  fires :: HapticIntensity
  period :: nat
  elapsed :: nat

text \<open>
  Besides the refs, the state holds what React keeps for the effect: whether the last run
  returned a cleanup function, and the dependency values of the last run.
\<close>

record haptic_state =
  intervalRef :: "interval_timer option"
  lastIntensityRef :: HapticIntensity
  isLockedRef :: bool
  cleanup :: bool
  deps :: "(bool \<times> real \<times> real) option"

definition mount :: haptic_state where
  "mount = \<lparr>intervalRef = None, lastIntensityRef = none, isLockedRef = False,
            cleanup = False, deps = None\<rparr>"

definition clearInterval :: "haptic_state \<Rightarrow> haptic_state" where
  "clearInterval st = st\<lparr>intervalRef := None\<rparr>"

definition intervalMs_of :: "HapticIntensity \<Rightarrow> nat option" where
  "intervalMs_of intensity =
     (if intensity = very_close then Some HAPTIC_INTERVALS_VERY_CLOSE
      else if intensity = close then Some HAPTIC_INTERVALS_CLOSE
      else if intensity = approaching then Some HAPTIC_INTERVALS_APPROACHING
      else None)"

text \<open>
  The body of the effect. The two early \<^verbatim>\<open>return;\<close> statements (scheduler disabled,
  lock just entered) return no cleanup function; the end of the body returns one.
\<close>

definition effect :: "bool \<Rightarrow> real \<Rightarrow> real \<Rightarrow> haptic_state \<Rightarrow> haptic_state \<times> HapticIntensity list" where
  "effect enabled deviation lockThreshold st =
     (if \<not> enabled then (clearInterval st\<lparr>cleanup := False\<rparr>, [])
      else
        let intensity = getIntensity lockThreshold deviation
        in if intensity = locked \<and> \<not> isLockedRef st
           then (clearInterval (st\<lparr>isLockedRef := True\<rparr>)\<lparr>cleanup := False\<rparr>, [locked])
           else
             let st1 = (if intensity \<noteq> locked then st\<lparr>isLockedRef := False\<rparr> else st)
             in if intensity \<noteq> lastIntensityRef st1
                then
                  let st2 = clearInterval (st1\<lparr>lastIntensityRef := intensity\<rparr>)
                  in (case intervalMs_of intensity of
                        Some ms \<Rightarrow>
                          (st2\<lparr>intervalRef := Some \<lparr>fires = intensity, period = ms, elapsed = 0\<rparr>,
                               cleanup := True\<rparr>, [intensity])
                      | None \<Rightarrow> (st2\<lparr>cleanup := True\<rparr>, []))
                else (st1\<lparr>cleanup := True\<rparr>, []))"

text \<open>
  One render with the given props. React re-runs the effect only when a dependency
  changed, and runs the cleanup of the previous run first.
\<close>

definition render :: "bool \<Rightarrow> real \<Rightarrow> real \<Rightarrow> haptic_state \<Rightarrow> haptic_state \<times> HapticIntensity list" where
  "render enabled deviation lockThreshold st =
     (if deps st = Some (enabled, deviation, lockThreshold) then (st, [])
      else
        let st0 = (if cleanup st then clearInterval st else st)
        in effect enabled deviation lockThreshold (st0\<lparr>deps := Some (enabled, deviation, lockThreshold)\<rparr>))"

text \<open>Time passing with no render: the running interval fires once per period.\<close>

definition advance :: "nat \<Rightarrow> haptic_state \<Rightarrow> haptic_state \<times> HapticIntensity list" where
  "advance ms st =
     (case intervalRef st of
        None \<Rightarrow> (st, [])
      | Some t \<Rightarrow>
          (st\<lparr>intervalRef := Some (t\<lparr>elapsed := (elapsed t + ms) mod period t\<rparr>)\<rparr>,
           replicate ((elapsed t + ms) div period t) (fires t)))"

text \<open>
  A session of an enabled scheduler with a fixed lock threshold: deviation samples
  arriving as renders, and time passing between them.
\<close>

datatype event = Sample real | Wait nat

fun feed :: "real \<Rightarrow> haptic_state \<Rightarrow> event list \<Rightarrow> haptic_state \<times> HapticIntensity list" where
  "feed lockThreshold st [] = (st, [])"
| "feed lockThreshold st (Sample d # evs) =
     (let (st1, ps) = render True d lockThreshold st;
          (st2, qs) = feed lockThreshold st1 evs
      in (st2, ps @ qs))"
| "feed lockThreshold st (Wait ms # evs) =
     (let (st1, ps) = advance ms st;
          (st2, qs) = feed lockThreshold st1 evs
      in (st2, ps @ qs))"

text \<open>Vocabulary for the lock threshold: confirmation pulses and entries into the threshold.\<close>

definition confirmations :: "HapticIntensity list \<Rightarrow> nat" where
  "confirmations ps = count_list ps locked"

definition within_lock :: "real \<Rightarrow> real \<Rightarrow> bool" where
  "within_lock lockThreshold d = (\<bar>d\<bar> \<le> lockThreshold)"

fun stays_within :: "real \<Rightarrow> event \<Rightarrow> bool" where
  "stays_within lockThreshold (Sample d) = within_lock lockThreshold d"
| "stays_within lockThreshold (Wait ms) = True"

fun inside_after :: "real \<Rightarrow> bool \<Rightarrow> event list \<Rightarrow> bool" where
  "inside_after lockThreshold inside [] = inside"
| "inside_after lockThreshold inside (Sample d # evs) =
     inside_after lockThreshold (within_lock lockThreshold d) evs"
| "inside_after lockThreshold inside (Wait ms # evs) = inside_after lockThreshold inside evs"

fun lock_entries :: "real \<Rightarrow> bool \<Rightarrow> event list \<Rightarrow> nat" where
  "lock_entries lockThreshold inside [] = 0"
| "lock_entries lockThreshold inside (Sample d # evs) =
     (if within_lock lockThreshold d \<and> \<not> inside then 1 else 0)
     + lock_entries lockThreshold (within_lock lockThreshold d) evs"
| "lock_entries lockThreshold inside (Wait ms # evs) = lock_entries lockThreshold inside evs"

definition pulses_of :: "real \<Rightarrow> event list \<Rightarrow> HapticIntensity list" where
  "pulses_of lockThreshold evs = snd (feed lockThreshold mount evs)"

definition haptic_inv :: "real \<Rightarrow> haptic_state \<Rightarrow> bool" where
  "haptic_inv lockThreshold st \<longleftrightarrow>
     (\<forall>t. intervalRef st = Some t \<longrightarrow> fires t \<noteq> locked)
     \<and> (isLockedRef st \<longleftrightarrow> (\<exists>d. deps st = Some (True, d, lockThreshold) \<and> within_lock lockThreshold d))"

section \<open>External estimation client (PVWatts service)\<close>

text \<open>
  \<^verbatim>\<open>x.toFixed(2)\<close>: a minus sign when \<open>x < 0\<close>, then the integer \<open>n\<close> nearest to
  \<open>|x| * 100\<close> (the larger one on a tie) printed with two decimals. \<open>Number(x.toFixed(2))\<close>
  is its value.
\<close>

definition digit :: "nat \<Rightarrow> char" where
  "digit d = ''0123456789'' ! d"

fun decimal :: "nat \<Rightarrow> string" where
  "decimal n = (if n < 10 then [digit n] else decimal (n div 10) @ [digit (n mod 10)])"

declare decimal.simps [simp del]

definition hundredths :: "real \<Rightarrow> nat" where
  "hundredths x = nat \<lfloor>\<bar>x\<bar> * 100 + 1 / 2\<rfloor>"

definition toFixed2 :: "real \<Rightarrow> string" where
  "toFixed2 x =
     (let n = hundredths x
      in (if x < 0 then ''-'' else '''') @ decimal (n div 100) @ ''.''
           @ [digit (n mod 100 div 10), digit (n mod 10)])"

definition Number_toFixed2 :: "real \<Rightarrow> real" where
  "Number_toFixed2 x = (if x < 0 then - 1 else 1) * (real (hundredths x) / 100)"

text \<open>What a rejected promise or a throw carries, as far as the client distinguishes it.\<close>

datatype js_error = NetworkError | HttpError nat | SyntaxError | TypeError

datatype confidence = live | cached | fallback

text \<open>
  \<open>PVWattsParams\<close> is the argument object of \<open>callPVWatts\<close>. A \<open>url_query\<close> is the request
  the service sees: the four search parameters that vary (capacity, array type, module
  type and losses are constants of the client).
\<close>

record PVWattsParams =
  params_latitude :: real
  params_longitude :: real
  params_tilt :: "real option"
  params_azimuth :: "real option"

record url_query =
  query_lat :: real
  query_lon :: real
  query_azimuth :: real
  query_tilt :: real

text \<open>
  The part of the response the client reads. A body with no \<open>outputs\<close> makes the read of
  \<^verbatim>\<open>result.outputs.ac_annual\<close> throw. The network answers a query with a response or not
  at all; \<open>json = None\<close> is a body that does not parse.
\<close>

record pv_outputs =
  ac_annual :: real
  ac_monthly :: "real list"

record PVWattsResponse =
  outputs :: "pv_outputs option"

record http_response =
  ok :: bool
  status :: nat
  json :: "PVWattsResponse option"

type_synonym network = "url_query \<Rightarrow> http_response option"

record OptimalTiltResult =
  tilt :: real
  annualProduction :: real
  confidence :: confidence

record WinterPriorityResult =
  tilt :: real
  decemberProduction :: "real option"
  juneProduction :: "real option"
  confidence :: confidence

text \<open>The two module-level caches, keyed by the rounded coordinates.\<close>

record cache_entry =
  tilt :: real
  timestamp :: int

record pv_caches =
  tiltCache :: "string \<rightharpoonup> cache_entry"
  winterTiltCache :: "string \<rightharpoonup> cache_entry"

definition CACHE_DURATION :: int where
  "CACHE_DURATION = 24 * 60 * 60 * 1000"

definition getCacheKey :: "real \<Rightarrow> real \<Rightarrow> string" where
  "getCacheKey lat lon = toFixed2 lat @ '','' @ toFixed2 lon"

text \<open>
  \<open>callPVWatts\<close> issues exactly one \<^verbatim>\<open>fetch\<close>; the model returns its outcome together
  with the list of requests issued.
\<close>

definition callPVWatts :: "network \<Rightarrow> PVWattsParams \<Rightarrow> (js_error + PVWattsResponse) \<times> url_query list" where
  "callPVWatts fetch params =
     (let roundedLat = Number_toFixed2 (params_latitude params);
          roundedLon = Number_toFixed2 (params_longitude params);
          url = \<lparr>query_lat = roundedLat, query_lon = roundedLon,
                 query_azimuth = (case params_azimuth params of Some a \<Rightarrow> a | None \<Rightarrow> 180),
                 query_tilt = (case params_tilt params of Some t \<Rightarrow> t
                               | None \<Rightarrow> params_latitude params)\<rparr>
      in (case fetch url of
            None \<Rightarrow> Inl NetworkError
          | Some response \<Rightarrow>
              if \<not> ok response then Inl (HttpError (status response))
              else (case json response of None \<Rightarrow> Inl SyntaxError | Some body \<Rightarrow> Inr body),
          [url]))"

text \<open>\<^verbatim>\<open>cached && Date.now() - cached.timestamp < CACHE_DURATION\<close>\<close>

definition freshEntry :: "cache_entry option \<Rightarrow> int \<Rightarrow> cache_entry option" where
  "freshEntry entry now =
     (case entry of
        Some e \<Rightarrow> if now - timestamp e < CACHE_DURATION then Some e else None
      | None \<Rightarrow> None)"

subsection \<open>Production-maximizing estimation\<close>

definition optimalTestAngles :: "real \<Rightarrow> real list" where
  "optimalTestAngles latitude =
     (let baseAngle = \<bar>latitude\<bar>
      in filter (\<lambda>a. a \<ge> 0 \<and> a \<le> 90)
           [baseAngle - 10, baseAngle - 5, baseAngle, baseAngle + 5, baseAngle + 10])"

text \<open>
  The callback of \<^verbatim>\<open>testAngles.map\<close>: one request, whose failure is caught and counted
  as a production of 0.
\<close>

definition annualRequest ::
  "network \<Rightarrow> real \<Rightarrow> real \<Rightarrow> real \<Rightarrow> (real \<times> real) \<times> url_query list" where
  "annualRequest fetch latitude longitude =
     (\<lambda>tilt.
        let (outcome, calls) =
              callPVWatts fetch
                \<lparr>params_latitude = latitude, params_longitude = longitude,
                 params_tilt = Some tilt,
                 params_azimuth = Some (if latitude \<ge> 0 then 180 else 0)\<rparr>
        in ((tilt,
             (case outcome of
                Inr result \<Rightarrow> (case outputs result of Some out \<Rightarrow> ac_annual out | None \<Rightarrow> 0)
              | Inl e \<Rightarrow> 0)),
            calls))"

text \<open>The \<^verbatim>\<open>for (const result of results)\<close> loop over the joined results.\<close>

definition highestProduction :: "(real \<times> real) list \<Rightarrow> real \<times> real \<Rightarrow> real \<times> real" where
  "highestProduction results best =
     foldl (\<lambda>(bestTilt, bestProduction) (tilt, production).
              if production > bestProduction then (tilt, production)
              else (bestTilt, bestProduction))
       best results"

text \<open>
  The body of the \<^verbatim>\<open>try\<close> block. \<open>later\<close> is the value of \<^verbatim>\<open>Date.now()\<close> when the
  cache entry is written.
\<close>

definition optimalSweep ::
  "network \<Rightarrow> int \<Rightarrow> pv_caches \<Rightarrow> real \<Rightarrow> real \<Rightarrow> string
     \<Rightarrow> (js_error + OptimalTiltResult \<times> pv_caches) \<times> url_query list" where
  "optimalSweep fetch later st latitude longitude cacheKey =
     (let baseAngle = \<bar>latitude\<bar>;
          testAngles = optimalTestAngles latitude;
          answers = map (annualRequest fetch latitude longitude) testAngles;
          results = map fst answers;
          (bestTilt, bestProduction) = highestProduction results (baseAngle, 0);
          st = st\<lparr>tiltCache := (tiltCache st)(cacheKey \<mapsto> \<lparr>cache_entry.tilt = bestTilt, timestamp = later\<rparr>)\<rparr>
      in (Inr (\<lparr>OptimalTiltResult.tilt = bestTilt, annualProduction = bestProduction, confidence = live\<rparr>, st),
          concat (map snd answers)))"

text \<open>
  The exported function: the cache check with \<open>now\<close> as \<^verbatim>\<open>Date.now()\<close>, the sweep, and
  the \<^verbatim>\<open>catch\<close> block. It returns the result, the caches and the requests issued.
\<close>

definition getOptimalTiltFromPVWatts ::
  "network \<Rightarrow> int \<Rightarrow> int \<Rightarrow> pv_caches \<Rightarrow> real \<Rightarrow> real
     \<Rightarrow> OptimalTiltResult \<times> pv_caches \<times> url_query list" where
  "getOptimalTiltFromPVWatts fetch now later st latitude longitude =
     (let cacheKey = getCacheKey latitude longitude
      in case freshEntry (tiltCache st cacheKey) now of
           Some entry \<Rightarrow>
             (\<lparr>OptimalTiltResult.tilt = cache_entry.tilt entry, annualProduction = 0, confidence = cached\<rparr>, st, [])
         | None \<Rightarrow>
             (case optimalSweep fetch later st latitude longitude cacheKey of
                (Inr (result, st'), calls) \<Rightarrow> (result, st', calls)
              | (Inl e, calls) \<Rightarrow>
                  (\<lparr>OptimalTiltResult.tilt = \<bar>latitude\<bar> * 0.87, annualProduction = 0, confidence = fallback\<rparr>,
                   st, calls)))"

text \<open>The caches at module load and after \<open>clearPVWattsCache\<close>.\<close>

definition emptyCaches :: pv_caches where
  "emptyCaches = \<lparr>tiltCache = Map.empty, winterTiltCache = Map.empty\<rparr>"

definition clearPVWattsCache :: "pv_caches \<Rightarrow> pv_caches" where
  "clearPVWattsCache st = st\<lparr>tiltCache := Map.empty, winterTiltCache := Map.empty\<rparr>"

subsection \<open>Winter-priority estimation\<close>

text \<open>Indexing a JavaScript array: \<^verbatim>\<open>undefined\<close> out of range.\<close>

definition js_index :: "'a list \<Rightarrow> nat \<Rightarrow> 'a option" where
  "js_index xs i = (if i < length xs then Some (xs ! i) else None)"

text \<open>
  \<^verbatim>\<open>for (let offset = 0; offset <= 25; offset += 5)\<close> pushes \<open>baseAngle + offset\<close> when it
  lies in \<open>[0, 90]\<close>.
\<close>

definition winterTestAngles :: "real \<Rightarrow> real list" where
  "winterTestAngles latitude =
     (let baseAngle = \<bar>latitude\<bar>
      in filter (\<lambda>angle. angle \<ge> 0 \<and> angle \<le> 90)
           (map (\<lambda>offset. baseAngle + offset) [0, 5, 10, 15, 20, 25]))"

definition monthlyRequest ::
  "network \<Rightarrow> real \<Rightarrow> real \<Rightarrow> real
     \<Rightarrow> (real \<times> real option \<times> real option) \<times> url_query list" where
  "monthlyRequest fetch latitude longitude =
     (\<lambda>tilt.
        let (outcome, calls) =
              callPVWatts fetch
                \<lparr>params_latitude = latitude, params_longitude = longitude,
                 params_tilt = Some tilt,
                 params_azimuth = Some (if latitude \<ge> 0 then 180 else 0)\<rparr>
        in ((case outcome of
               Inr result \<Rightarrow>
                 (case outputs result of
                    Some out \<Rightarrow> (tilt, js_index (ac_monthly out) 5, js_index (ac_monthly out) 11)
                  | None \<Rightarrow> (tilt, Some 0, Some 0))
             | Inl e \<Rightarrow> (tilt, Some 0, Some 0)),
            calls))"

text \<open>
  \<^verbatim>\<open>result.juneProduction >= result.decProduction && result.decProduction > 0\<close>; a
  comparison with \<^verbatim>\<open>undefined\<close> is false.
\<close>

definition juneCoversDecember :: "real \<times> real option \<times> real option \<Rightarrow> bool" where
  "juneCoversDecember result =
     (case result of
        (t, Some june, Some dec) \<Rightarrow> june \<ge> dec \<and> dec > 0
      | _ \<Rightarrow> False)"

text \<open>
  The body of the \<^verbatim>\<open>try\<close> block: the results are sorted by descending tilt, the default
  is the last of them, and the first result that passes the test replaces it. Reading
  \<^verbatim>\<open>bestResult.tilt\<close> of an \<^verbatim>\<open>undefined\<close> default throws.
\<close>

definition winterSweep ::
  "network \<Rightarrow> int \<Rightarrow> pv_caches \<Rightarrow> real \<Rightarrow> real \<Rightarrow> string
     \<Rightarrow> (js_error + WinterPriorityResult \<times> pv_caches) \<times> url_query list" where
  "winterSweep fetch later st latitude longitude cacheKey =
     (let testAngles = winterTestAngles latitude;
          answers = map (monthlyRequest fetch latitude longitude) testAngles;
          results = sort_key (\<lambda>(t, j, d). - t) (map fst answers);
          bestResult = (if results = [] then None else Some (last results));
          bestResult = (case find juneCoversDecember results of
                          Some result \<Rightarrow> Some result
                        | None \<Rightarrow> bestResult)
      in (case bestResult of
            None \<Rightarrow> Inl TypeError
          | Some (t, june, dec) \<Rightarrow>
              Inr (\<lparr>WinterPriorityResult.tilt = t, decemberProduction = dec,
                     juneProduction = june, confidence = live\<rparr>,
                   st\<lparr>winterTiltCache :=
                        (winterTiltCache st)(cacheKey \<mapsto> \<lparr>cache_entry.tilt = t, timestamp = later\<rparr>)\<rparr>),
          concat (map snd answers)))"

definition getWinterPriorityTiltFromPVWatts ::
  "network \<Rightarrow> int \<Rightarrow> int \<Rightarrow> pv_caches \<Rightarrow> real \<Rightarrow> real
     \<Rightarrow> WinterPriorityResult \<times> pv_caches \<times> url_query list" where
  "getWinterPriorityTiltFromPVWatts fetch now later st latitude longitude =
     (let cacheKey = getCacheKey latitude longitude
      in case freshEntry (winterTiltCache st cacheKey) now of
           Some entry \<Rightarrow>
             (\<lparr>WinterPriorityResult.tilt = cache_entry.tilt entry, decemberProduction = Some 0,
               juneProduction = Some 0, confidence = cached\<rparr>, st, [])
         | None \<Rightarrow>
             (case winterSweep fetch later st latitude longitude cacheKey of
                (Inr (result, st'), calls) \<Rightarrow> (result, st', calls)
              | (Inl e, calls) \<Rightarrow>
                  (\<lparr>WinterPriorityResult.tilt = min 90 (\<bar>latitude\<bar> + 15),
                    decemberProduction = Some 0, juneProduction = Some 0, confidence = fallback\<rparr>,
                   st, calls)))"

subsection \<open>Vocabulary for the estimation client\<close>

text \<open>
  The annual yield the sweep records for a tested angle, and what it means for the request
  of a tested angle to fail: the call throws, or the body has no \<open>outputs\<close>.
\<close>

definition annualYield :: "network \<Rightarrow> real \<Rightarrow> real \<Rightarrow> real \<Rightarrow> real" where
  "annualYield fetch latitude longitude a = snd (fst (annualRequest fetch latitude longitude a))"

definition requestFails :: "network \<Rightarrow> real \<Rightarrow> real \<Rightarrow> real \<Rightarrow> bool" where
  "requestFails fetch latitude longitude a =
     (case fst (callPVWatts fetch
                  \<lparr>params_latitude = latitude, params_longitude = longitude,
                   params_tilt = Some a,
                   params_azimuth = Some (if latitude \<ge> 0 then 180 else 0)\<rparr>) of
        Inl e \<Rightarrow> True
      | Inr result \<Rightarrow> outputs result = None)"

text \<open>
  Sample services for the concrete runs: a well-formed answer; a service whose request for
  tilt 30 gets no answer while tilt 35 yields 5000 and every other tilt 4000; a service
  that is down.
\<close>

definition answer :: "real \<Rightarrow> real list \<Rightarrow> http_response option" where
  "answer annual monthly =
     Some \<lparr>ok = True, status = 200,
           json = Some \<lparr>outputs = Some \<lparr>ac_annual = annual, ac_monthly = monthly\<rparr>\<rparr>\<rparr>"

definition service_one_down :: network where
  "service_one_down q =
     (if query_tilt q = 30 then None
      else answer (if query_tilt q = 35 then 5000 else 4000) [])"

definition service_down :: network where
  "service_down q = None"

text \<open>
  The candidates as the specification words them: the five offsets, each clipped to
  \<open>[0, 90]\<close>.
\<close>

definition spec_sweep_candidates :: "real \<Rightarrow> real list" where
  "spec_sweep_candidates latitude =
     map (\<lambda>offset. max 0 (min 90 (\<bar>latitude\<bar> + offset))) [- 10, - 5, 0, 5, 10]"

text \<open>
  What the winter sweep records for a tested angle, and whether that record passes the
  test of the selection loop.
\<close>

definition winterCandidate ::
  "network \<Rightarrow> real \<Rightarrow> real \<Rightarrow> real \<Rightarrow> real \<times> real option \<times> real option" where
  "winterCandidate fetch latitude longitude a = fst (monthlyRequest fetch latitude longitude a)"

definition winterQualifies :: "network \<Rightarrow> real \<Rightarrow> real \<Rightarrow> real \<Rightarrow> bool" where
  "winterQualifies fetch latitude longitude a =
     juneCoversDecember (winterCandidate fetch latitude longitude a)"

text \<open>
  The choice as the specification words it, on candidates \<open>(tilt, June, December)\<close>: the
  steepest angle whose June yield is at least its December yield, the shallowest angle
  when there is none.
\<close>

definition spec_winter_tilt :: "(real \<times> real \<times> real) list \<Rightarrow> real" where
  "spec_winter_tilt candidates =
     (let balanced = filter (\<lambda>(t, june, dec). june \<ge> dec) candidates
      in if balanced = [] then Min (set (map fst candidates)) else Max (set (map fst balanced)))"

text \<open>
  Two more sample services: one with no December production at any tilt, and one whose
  June yield falls and December yield rises with the tilt, meeting at tilt 50.
\<close>

definition service_polar_night :: network where
  "service_polar_night q = answer 2000 [0, 10, 100, 200, 300, 350, 330, 220, 110, 20, 0, 0]"

definition service_temperate :: network where
  "service_temperate q =
     answer 5000 [100, 150, 250, 350, 400, 700 - 6 * query_tilt q, 420, 380, 300, 200, 120,
                  100 + 6 * query_tilt q]"

section \<open>Facts about the angle arithmetic\<close>

lemma js_rem_nonneg_bounds:
  assumes "0 \<le> a"
  shows "0 \<le> js_rem a 360 \<and> js_rem a 360 < 360"
proof -
  have "js_rem a 360 = a - 360 * of_int \<lfloor>a / 360\<rfloor>"
    using assms by (simp add: js_rem_def js_trunc_def)
  moreover have "of_int \<lfloor>a / 360\<rfloor> \<le> a / 360" "a / 360 < of_int \<lfloor>a / 360\<rfloor> + 1"
    by linarith+
  ultimately show ?thesis by (simp add: field_simps)
qed

lemma js_rem_lower: "- 360 < js_rem a 360"
proof (cases "0 \<le> a")
  case True
  then show ?thesis using js_rem_nonneg_bounds [of a] by linarith
next
  case False
  then have "js_rem a 360 = a + 360 * of_int \<lfloor>- a / 360\<rfloor>"
    by (simp add: js_rem_def js_trunc_def)
  moreover have "of_int \<lfloor>- a / 360\<rfloor> \<le> - a / 360" "- a / 360 < of_int \<lfloor>- a / 360\<rfloor> + 1"
    by linarith+
  ultimately show ?thesis by (simp add: field_simps)
qed

lemma normalizeAngle_range: "0 \<le> normalizeAngle a \<and> normalizeAngle a < 360"
  unfolding normalizeAngle_def
  using js_rem_lower [of a] js_rem_nonneg_bounds [of "js_rem a 360 + 360"] by simp

lemma wrap_down_le: "wrap_down d \<le> 180"
  by (induction d rule: wrap_down.induct) (simp add: wrap_down.simps)

lemma wrap_up_ge: "- 180 \<le> wrap_up d"
  by (induction d rule: wrap_up.induct) (simp add: wrap_up.simps)

lemma wrap_up_le: "d \<le> 180 \<Longrightarrow> wrap_up d \<le> 180"
  by (induction d rule: wrap_up.induct) (subst wrap_up.simps, auto)

text \<open>
  C4, as stated, fails. The claim puts both circular differences in the half-open interval
  \<open>(-180, 180]\<close> for all real inputs. \<open>calculateAngleDeviation 0 180\<close> is \<open>-180\<close>: the second
  loop runs only while the value is strictly below \<open>-180\<close>. \<open>shortestDelta 0 1000\<close> is \<open>640\<close>:
  the adjustment by 360 is made once, not repeated.
\<close>

theorem angle_difference_half_open_counterexample:
  "\<not> (- 180 < calculateAngleDeviation 0 180 \<and> calculateAngleDeviation 0 180 \<le> 180)
   \<and> \<not> (- 180 < shortestDelta 0 1000 \<and> shortestDelta 0 1000 \<le> 180)"
  by (simp add: calculateAngleDeviation_def wrap_down.simps wrap_up.simps shortestDelta_def)

text \<open>
  C4, amended. For all real inputs \<open>calculateAngleDeviation\<close> returns a value in the closed
  interval \<open>[-180, 180]\<close>. \<open>shortestDelta\<close> returns a value in \<open>[-180, 180]\<close> when both
  arguments lie in \<open>[0, 360)\<close>, which is how the compass estimator calls it (on a
  normalized accumulator and a normalized heading sample).
\<close>

theorem angle_difference_closed_range:
  "(- 180 \<le> calculateAngleDeviation current target
      \<and> calculateAngleDeviation current target \<le> 180)
   \<and> (0 \<le> from \<and> from < 360 \<and> 0 \<le> to \<and> to < 360
        \<longrightarrow> - 180 \<le> shortestDelta from to \<and> shortestDelta from to \<le> 180)"
proof -
  have "calculateAngleDeviation current target \<le> 180"
    unfolding calculateAngleDeviation_def by (rule wrap_up_le) (rule wrap_down_le)
  moreover have "- 180 \<le> calculateAngleDeviation current target"
    unfolding calculateAngleDeviation_def by (rule wrap_up_ge)
  moreover have "0 \<le> from \<and> from < 360 \<and> 0 \<le> to \<and> to < 360
        \<longrightarrow> - 180 \<le> shortestDelta from to \<and> shortestDelta from to \<le> 180"
    by (auto simp: shortestDelta_def Let_def)
  ultimately show ?thesis by blast
qed

text \<open>
  The amended C4 at concrete inputs: a deviation of 1000 degrees is wrapped to \<open>-80\<close>, and
  the step from 350 to 10 degrees across north is \<open>20\<close>.
\<close>

theorem angle_difference_closed_range_witness:
  "calculateAngleDeviation 1000 0 = - 80 \<and> shortestDelta 350 10 = 20
   \<and> - 180 \<le> calculateAngleDeviation 1000 0 \<and> calculateAngleDeviation 1000 0 \<le> 180
   \<and> - 180 \<le> shortestDelta 350 10 \<and> shortestDelta 350 10 \<le> 180"
  using angle_difference_closed_range [of 1000 0 350 10]
  by (simp add: calculateAngleDeviation_def wrap_down.simps wrap_up.simps shortestDelta_def)

text \<open>
  C9, as stated, fails. The claim gives the cubic coefficient as \<open>0.0000805\<close>; the code
  uses \<open>0.000080509\<close>, so at latitude 10 the two polynomials differ.
\<close>

theorem jacobson_spec_coefficient_counterexample:
  "getJacobsonTilt 10 \<noteq> spec_regression_B 10"
  by (simp add: getJacobsonTilt_def spec_regression_B_def)

text \<open>
  C9, amended. For every latitude, with \<open>L = |latitude|\<close>, the Jacobson tilt equals
  \<open>1.3793 + L * (1.2011 + L * (-0.014404 + L * 0.000080509))\<close>; it exceeds the
  polynomial printed in the specification by \<open>0.000000009 * L^3\<close>.
\<close>

theorem jacobson_tilt_polynomial:
  "getJacobsonTilt latitude =
     1.3793 + \<bar>latitude\<bar> * (1.2011 + \<bar>latitude\<bar> * (- 0.014404 + \<bar>latitude\<bar> * 0.000080509))
   \<and> getJacobsonTilt latitude = spec_regression_B latitude + 0.000000009 * \<bar>latitude\<bar> ^ 3"
  by (simp add: getJacobsonTilt_def spec_regression_B_def Let_def power3_eq_cube algebra_simps)

section \<open>Facts about the haptic scheduler\<close>

lemma getIntensity_locked: "getIntensity lt d = locked \<longleftrightarrow> within_lock lt d"
  by (simp add: getIntensity_def within_lock_def Let_def)

lemma intervalMs_of_locked: "intervalMs_of locked = None"
  by (simp add: intervalMs_of_def)

lemma render_step:
  assumes "haptic_inv lt st"
  shows "haptic_inv lt (fst (render True d lt st))"
    and "isLockedRef (fst (render True d lt st)) = within_lock lt d"
    and "confirmations (snd (render True d lt st)) = (if within_lock lt d \<and> \<not> isLockedRef st then 1 else 0)"
proof -
  have "haptic_inv lt (fst (render True d lt st))
      \<and> isLockedRef (fst (render True d lt st)) = within_lock lt d
      \<and> confirmations (snd (render True d lt st)) = (if within_lock lt d \<and> \<not> isLockedRef st then 1 else 0)"
  proof (cases "within_lock lt d")
    case True
    then have "getIntensity lt d = locked" by (simp add: getIntensity_locked)
    with True assms show ?thesis
      by (auto simp: render_def effect_def clearInterval_def haptic_inv_def confirmations_def
          intervalMs_of_locked Let_def)
  next
    case False
    then have "getIntensity lt d \<noteq> locked" by (simp add: getIntensity_locked)
    with False assms show ?thesis
      by (auto simp: render_def effect_def clearInterval_def haptic_inv_def confirmations_def
          Let_def split: option.splits)
  qed
  then show "haptic_inv lt (fst (render True d lt st))"
    and "isLockedRef (fst (render True d lt st)) = within_lock lt d"
    and "confirmations (snd (render True d lt st)) = (if within_lock lt d \<and> \<not> isLockedRef st then 1 else 0)"
    by blast+
qed

lemma advance_step:
  assumes "haptic_inv lt st"
  shows "haptic_inv lt (fst (advance ms st))"
    and "isLockedRef (fst (advance ms st)) = isLockedRef st"
    and "confirmations (snd (advance ms st)) = 0"
  using assms
  by (auto simp: advance_def haptic_inv_def confirmations_def count_list_0_iff split: option.splits)

lemma confirmations_append: "confirmations (ps @ qs) = confirmations ps + confirmations qs"
  by (simp add: confirmations_def)

lemma snd_feed_Sample:
  "snd (feed lt st (Sample d # evs))
     = snd (render True d lt st) @ snd (feed lt (fst (render True d lt st)) evs)"
  by (simp add: case_prod_beta)

lemma snd_feed_Wait:
  "snd (feed lt st (Wait ms # evs))
     = snd (advance ms st) @ snd (feed lt (fst (advance ms st)) evs)"
  by (simp add: case_prod_beta)

lemma feed_confirmations:
  "haptic_inv lt st \<Longrightarrow>
     confirmations (snd (feed lt st evs)) = lock_entries lt (isLockedRef st) evs"
proof (induction evs arbitrary: st)
  case Nil
  then show ?case by (simp add: confirmations_def)
next
  case (Cons e evs)
  show ?case
  proof (cases e)
    case (Sample d)
    show ?thesis
      unfolding Sample snd_feed_Sample confirmations_append
      using render_step [OF Cons.prems, of d] Cons.IH [of "fst (render True d lt st)"]
      by simp
  next
    case (Wait ms)
    show ?thesis
      unfolding Wait snd_feed_Wait confirmations_append
      using advance_step [OF Cons.prems, of ms] Cons.IH [of "fst (advance ms st)"]
      by simp
  qed
qed

lemma mount_inv: "haptic_inv lt mount"
  by (simp add: haptic_inv_def mount_def)

lemma lock_entries_append:
  "lock_entries lt b (xs @ ys) = lock_entries lt b xs + lock_entries lt (inside_after lt b xs) ys"
  by (induction lt b xs rule: lock_entries.induct) simp_all

lemma lock_entries_stay: "\<forall>e\<in>set evs. stays_within lt e \<Longrightarrow> lock_entries lt True evs = 0"
  by (induction lt True evs rule: lock_entries.induct) simp_all

lemma inside_after_stay: "\<forall>e\<in>set evs. stays_within lt e \<Longrightarrow> inside_after lt True evs = True"
  by (induction lt True evs rule: inside_after.induct) simp_all

lemma pulses_of_entries: "confirmations (pulses_of lt evs) = lock_entries lt False evs"
  unfolding pulses_of_def using feed_confirmations [OF mount_inv, of lt evs]
  by (simp add: mount_def)

text \<open>
  C6. Take any session of an enabled scheduler whose last sample so far (if any) lies outside
  the lock threshold. When a sample \<open>d\<close> enters the threshold and the samples after it stay
  within it (with any time passing in between), exactly one confirmation pulse is added
  during the stay; the sample \<open>x\<close> that leaves adds none; and a later re-entry \<open>d'\<close> with
  its own stay adds exactly one more.
\<close>

theorem lock_confirmation_edge_triggered:
  assumes "\<not> inside_after lt False pre"
    and "within_lock lt d" and "\<forall>e\<in>set stay. stays_within lt e"
    and "\<not> within_lock lt x"
    and "within_lock lt d'" and "\<forall>e\<in>set stay'. stays_within lt e"
  shows "confirmations (pulses_of lt (pre @ Sample d # stay)) = confirmations (pulses_of lt pre) + 1
       \<and> confirmations (pulses_of lt (pre @ Sample d # stay @ [Sample x]))
           = confirmations (pulses_of lt pre) + 1
       \<and> confirmations (pulses_of lt (pre @ Sample d # stay @ Sample x # Sample d' # stay'))
           = confirmations (pulses_of lt pre) + 2"
  using assms
  by (simp add: pulses_of_entries lock_entries_append lock_entries_stay inside_after_stay)

text \<open>
  C6 at a concrete session with lock threshold 0.5: a sample at 1 degree, then five samples
  within the threshold, an exit to 1.5 degrees and a re-entry at 0.4.
\<close>

theorem lock_confirmation_edge_triggered_witness:
  "\<not> inside_after 0.5 False [Sample 1, Wait 50]
   \<and> within_lock 0.5 0.3
   \<and> list_all (stays_within 0.5) [Sample 0.2, Sample 0.1, Sample 0, Sample (- 0.1), Wait 300]
   \<and> \<not> within_lock 0.5 1.5
   \<and> within_lock 0.5 0.4
   \<and> list_all (stays_within 0.5) [Wait 200, Sample 0.45]
   \<and> confirmations (pulses_of 0.5 [Sample 1, Wait 50]) = 0
   \<and> confirmations (pulses_of 0.5 ([Sample 1, Wait 50] @ Sample 0.3 #
          [Sample 0.2, Sample 0.1, Sample 0, Sample (- 0.1), Wait 300])) = 1
   \<and> confirmations (pulses_of 0.5 ([Sample 1, Wait 50] @ Sample 0.3 #
          [Sample 0.2, Sample 0.1, Sample 0, Sample (- 0.1), Wait 300] @ [Sample 1.5])) = 1
   \<and> confirmations (pulses_of 0.5 ([Sample 1, Wait 50] @ Sample 0.3 #
          [Sample 0.2, Sample 0.1, Sample 0, Sample (- 0.1), Wait 300]
          @ Sample 1.5 # Sample 0.4 # [Wait 200, Sample 0.45])) = 2"
proof -
  have pre: "\<not> inside_after 0.5 False [Sample 1, Wait 50]"
    by (simp add: within_lock_def)
  have d: "within_lock 0.5 0.3" by (simp add: within_lock_def)
  have stay: "\<forall>e\<in>set [Sample 0.2, Sample 0.1, Sample 0, Sample (- 0.1), Wait 300]. stays_within 0.5 e"
    by (simp add: within_lock_def)
  have x: "\<not> within_lock 0.5 1.5" by (simp add: within_lock_def)
  have d': "within_lock 0.5 0.4" by (simp add: within_lock_def)
  have stay': "\<forall>e\<in>set [Wait 200, Sample 0.45]. stays_within 0.5 e"
    by (simp add: within_lock_def)
  have zero: "confirmations (pulses_of 0.5 [Sample 1, Wait 50]) = 0"
    by (simp add: pulses_of_entries within_lock_def)
  show ?thesis
    using lock_confirmation_edge_triggered [OF pre d stay x d' stay'] pre d stay x d' stay' zero
    by simp
qed

text \<open>
  C7 on the code. With lock threshold 0.5 the deviations 4 and 3.9 are both \<open>close\<close>. The
  sample 4 fires the immediate pulse and starts the 250 ms interval; left alone it fires
  four more times within 1100 ms. When the sample 3.9 arrives after 100 ms, the cleanup of
  the previous effect run clears the interval and the effect body does not start a new
  one, the intensity being unchanged: no further pulse fires in the next 1000 ms.
\<close>

theorem periodic_timer_cleared_by_next_sample:
  "getIntensity 0.5 4 = close \<and> getIntensity 0.5 3.9 = close
   \<and> pulses_of 0.5 [Sample 4, Wait 1100] = [close, close, close, close, close]
   \<and> intervalRef (fst (feed 0.5 mount [Sample 4, Wait 100, Sample 3.9])) = None
   \<and> pulses_of 0.5 [Sample 4, Wait 100, Sample 3.9, Wait 1000] = [close]"
  unfolding pulses_of_def by code_simp

section \<open>Facts about the compass estimator\<close>

lemma publish_heading:
  "heading (state (publish c)) =
     (if normalizeAngle (rawHeading (state (publish c))) \<ge> 359.5 then 0
      else normalizeAngle (rawHeading (state (publish c))))"
  by (simp add: publish_def Let_def)

lemma updateHeading_heading:
  assumes "accelRef c = Some accel" and "magRef c = Some mag"
  shows "heading (state (updateHeading android c)) =
     (if normalizeAngle (rawHeading (state (updateHeading android c))) \<ge> 359.5 then 0
      else normalizeAngle (rawHeading (state (updateHeading android c))))"
  using assms
  by (simp add: updateHeading_def Let_def publish_heading split: prod.splits)

lemma updateHeading_first:
  assumes "accelRef c = Some accel" and "magRef c = Some mag" and "\<not> initializedRef c"
  shows "rawHeading (state (updateHeading android c)) = calculateTiltCompensatedHeading accel mag"
  using assms
  by (simp add: updateHeading_def Let_def publish_def split: prod.splits)

lemma normalizeAngle_id:
  assumes "0 \<le> a" and "a < 360"
  shows "normalizeAngle a = a"
proof -
  have "\<lfloor>a / 360\<rfloor> = 0" using assms by (simp add: floor_eq_iff)
  then have 1: "js_rem a 360 = a" using assms by (simp add: js_rem_def js_trunc_def)
  have "\<lfloor>(a + 360) / 360\<rfloor> = 1" using assms by (simp add: floor_eq_iff)
  then have "js_rem (a + 360) 360 = a" using assms by (simp add: js_rem_def js_trunc_def)
  with 1 show ?thesis by (simp add: normalizeAngle_def)
qed

lemma normalizeAngle_small_neg:
  assumes "0 < h" and "h < 360"
  shows "normalizeAngle (- h) = 360 - h"
proof -
  have "\<lfloor>h / 360\<rfloor> = 0" using assms by (simp add: floor_eq_iff)
  then have 1: "js_rem (- h) 360 = - h" using assms by (simp add: js_rem_def js_trunc_def)
  have "\<lfloor>(360 - h) / 360\<rfloor> = 0" using assms by (simp add: floor_eq_iff)
  then have "js_rem (- h + 360) 360 = 360 - h" using assms by (simp add: js_rem_def js_trunc_def)
  with 1 show ?thesis by (simp add: normalizeAngle_def)
qed

lemma arctan_upper:
  assumes "0 \<le> (x::real)"
  shows "arctan x \<le> x"
proof -
  have "(\<lambda>u. u - arctan u) 0 \<le> (\<lambda>u. u - arctan u) x"
  proof (rule DERIV_nonneg_imp_nondecreasing [OF assms])
    fix u :: real
    have "((\<lambda>u. u - arctan u) has_real_derivative 1 - inverse (1 + u\<^sup>2)) (at u)"
      by (rule DERIV_diff [OF DERIV_ident DERIV_arctan])
    moreover have "0 < 1 + u\<^sup>2"
      by (rule add_pos_nonneg) simp_all
    then have "0 \<le> 1 - inverse (1 + u\<^sup>2)"
      by (simp add: field_simps)
    ultimately show "\<exists>y. ((\<lambda>u. u - arctan u) has_real_derivative y) (at u) \<and> 0 \<le> y"
      by blast
  qed
  then show ?thesis by simp
qed

lemma small_heading_bounds:
  obtains h :: real where "h = arctan (1 / 200) * (180 / pi)" and "0 < h" and "h < 1 / 2"
proof -
  define h :: real where "h = arctan (1 / 200) * (180 / pi)"
  have pos: "0 < arctan (1 / 200 :: real)" by simp
  have le: "arctan (1 / 200 :: real) \<le> 1 / 200" by (rule arctan_upper) simp
  have "180 / pi \<le> 90" using pi_ge_two by (simp add: field_simps)
  moreover have "0 < 180 / pi" by simp
  ultimately have "h \<le> (1 / 200) * 90"
    unfolding h_def using pos le by (intro mult_mono) simp_all
  then have upper: "h < 1 / 2" by simp
  have lower: "0 < h"
    unfolding h_def using pos by simp
  show ?thesis by (rule that [OF h_def lower upper])
qed

lemma flat_device_heading:
  obtains h :: real where "0 < h" and "h < 1 / 2"
    and "calculateTiltCompensatedHeading (0, 0, 1) (- 1, 200, 0) = 360 - h"
proof -
  obtain h :: real where h: "h = arctan (1 / 200) * (180 / pi)" "0 < h" "h < 1 / 2"
    by (rule small_heading_bounds)
  define m :: real where "m = sqrt 40001"
  have m: "0 < m" "m * m = 40001" by (simp_all add: m_def)
  have g: "normalize 0 0 1 = (0, 0, 1)" by (simp add: normalize_def)
  have e0: "cross (- 1) 200 0 0 0 1 = (200, 1, 0)" by (simp add: cross_def)
  have e: "normalize 200 1 0 = (200 / m, 1 / m, 0)"
    using m by (simp add: normalize_def m_def Let_def)
  have n0: "cross 0 0 1 (200 / m) (1 / m) 0 = (- (1 / m), 200 / m, 0)" by (simp add: cross_def)
  have "- (1 / m) * - (1 / m) + 200 / m * (200 / m) + 0 * 0 = 40001 / (m * m)"
    by (simp add: field_simps)
  also have "\<dots> = 1" using m by simp
  finally have n: "normalize (- (1 / m)) (200 / m) 0 = (- (1 / m), 200 / m, 0)"
    by (simp add: normalize_def)
  have "js_atan2 (1 / m) (200 / m) = arctan (1 / 200)"
    using m by (simp add: js_atan2_def)
  then have a: "js_atan2 (1 / m) (200 / m) * (180 / pi) = h"
    by (simp only: h(1))
  have "calculateTiltCompensatedHeading (0, 0, 1) (- 1, 200, 0) = normalizeAngle (- h)"
    unfolding calculateTiltCompensatedHeading_def
    by (simp only: g e0 e n0 n a Let_def prod.case)
  also have "\<dots> = 360 - h"
    using h(2,3) by (intro normalizeAngle_small_neg) simp_all
  finally show ?thesis using that h(2,3) by blast
qed

text \<open>
  C1, as stated, fails. A device lying flat (gravity along \<open>z\<close>) with the magnetometer
  reading \<open>(-1, 200, 0)\<close> yields a first heading sample of about 359.71 degrees. The
  continuous \<open>rawHeading\<close> takes that value, while the published \<open>heading\<close> is snapped
  to 0, which is not its normalization.
\<close>

theorem published_heading_not_normalized_counterexample:
  "heading (state (handleMagnetometer False (- 1, 200, 0)
             (handleAccelerometer False (0, 0, 1) useTiltCompensatedCompass)))
   \<noteq> normalizeAngle (rawHeading (state (handleMagnetometer False (- 1, 200, 0)
             (handleAccelerometer False (0, 0, 1) useTiltCompensatedCompass))))"
proof -
  define c where
    "c = (handleAccelerometer False (0, 0, 1) useTiltCompensatedCompass)\<lparr>magRef := Some (- 1, 200, 0)\<rparr>"
  have refs: "accelRef c = Some (0, 0, 1)" "magRef c = Some (- 1, 200, 0)" "\<not> initializedRef c"
    by (simp_all add: c_def handleAccelerometer_def updateHeading_def useTiltCompensatedCompass_def)
  obtain h :: real where h: "0 < h" "h < 1 / 2"
    and sample: "calculateTiltCompensatedHeading (0, 0, 1) (- 1, 200, 0) = 360 - h"
    by (rule flat_device_heading)
  have raw: "rawHeading (state (updateHeading False c)) = 360 - h"
    using updateHeading_first [OF refs] by (simp only: sample)
  have norm: "normalizeAngle (360 - h) = 360 - h"
    using h by (intro normalizeAngle_id) simp_all
  have "heading (state (updateHeading False c)) = 0"
    using updateHeading_heading [OF refs(1,2), of False] h
    by (simp add: raw norm)
  moreover have "normalizeAngle (rawHeading (state (updateHeading False c))) \<noteq> 0"
    using h by (simp add: raw norm)
  ultimately show ?thesis
    by (simp add: handleMagnetometer_def c_def)
qed

text \<open>
  C1, amended. For every sensor update that is processed (both sensors have reported), the
  published \<open>heading\<close> equals \<open>normalizeAngle rawHeading\<close> when that value is below 359.5,
  and is 0 when it is 359.5 or more.
\<close>

theorem published_heading_normalized_or_snapped:
  assumes "accelRef c = Some accel" and "magRef c = Some mag"
  shows "heading (state (updateHeading android c)) =
     (if normalizeAngle (rawHeading (state (updateHeading android c))) \<ge> 359.5 then 0
      else normalizeAngle (rawHeading (state (updateHeading android c))))"
  using assms by (rule updateHeading_heading)

text \<open>
  The amended C1 on a flat device whose magnetometer reads \<open>(-1, 0, 0)\<close>: the first
  processed update publishes \<open>rawHeading = 270\<close> and \<open>heading = 270\<close>.
\<close>

theorem published_heading_normalized_or_snapped_witness:
  "accelRef (useTiltCompensatedCompass\<lparr>accelRef := Some (0, 0, 1), magRef := Some (- 1, 0, 0)\<rparr>)
     = Some (0, 0, 1)
   \<and> magRef (useTiltCompensatedCompass\<lparr>accelRef := Some (0, 0, 1), magRef := Some (- 1, 0, 0)\<rparr>)
     = Some (- 1, 0, 0)
   \<and> rawHeading (state (updateHeading False
        (useTiltCompensatedCompass\<lparr>accelRef := Some (0, 0, 1), magRef := Some (- 1, 0, 0)\<rparr>))) = 270
   \<and> heading (state (updateHeading False
        (useTiltCompensatedCompass\<lparr>accelRef := Some (0, 0, 1), magRef := Some (- 1, 0, 0)\<rparr>))) = 270"
proof -
  let ?c = "useTiltCompensatedCompass\<lparr>accelRef := Some (0, 0, 1), magRef := Some (- 1, 0, 0)\<rparr>"
  have refs: "accelRef ?c = Some (0, 0, 1)" "magRef ?c = Some (- 1, 0, 0)" "\<not> initializedRef ?c"
    by (simp_all add: useTiltCompensatedCompass_def)
  have "calculateTiltCompensatedHeading (0, 0, 1) (- 1, 0, 0) = normalizeAngle (- 90)"
    by (simp add: calculateTiltCompensatedHeading_def normalize_def cross_def js_atan2_def)
  also have "\<dots> = 270"
    by (simp add: normalizeAngle_def js_rem_def js_trunc_def)
  finally have raw: "rawHeading (state (updateHeading False ?c)) = 270"
    using updateHeading_first [OF refs] by simp
  have "normalizeAngle 270 = 270"
    by (rule normalizeAngle_id) simp_all
  then show ?thesis
    using published_heading_normalized_or_snapped [OF refs(1,2), of False] refs(1,2) raw
    by simp
qed

section \<open>Facts about the production-maximizing estimation\<close>

lemma annualRequest_fst:
  "fst (annualRequest fetch latitude longitude a) = (a, annualYield fetch latitude longitude a)"
  by (simp add: annualYield_def annualRequest_def case_prod_beta)

lemma annualRequest_calls:
  "map query_tilt (snd (annualRequest fetch latitude longitude a)) = [a]"
  by (simp add: annualRequest_def callPVWatts_def case_prod_beta Let_def)

lemma requestFails_yield:
  "requestFails fetch latitude longitude a \<Longrightarrow> annualYield fetch latitude longitude a = 0"
  by (auto simp: requestFails_def annualYield_def annualRequest_def case_prod_beta
      split: sum.splits option.splits)

lemma sweep_calls:
  "map query_tilt (concat (map snd (map (annualRequest fetch latitude longitude) angles))) = angles"
  by (induction angles) (simp_all add: annualRequest_calls)

lemma highestProduction_Cons:
  "highestProduction (r # results) best =
     highestProduction results (if snd r > snd best then r else best)"
  by (cases r; cases best) (simp add: highestProduction_def)

lemma highestProduction_Nil: "highestProduction [] best = best"
  by (simp add: highestProduction_def)

lemma highestProduction_bounds:
  "snd best \<le> snd (highestProduction results best)
   \<and> (\<forall>r\<in>set results. snd r \<le> snd (highestProduction results best))"
proof (induction results arbitrary: best)
  case Nil
  show ?case by (simp add: highestProduction_Nil)
next
  case (Cons r results)
  show ?case
    using Cons.IH [of "if snd r > snd best then r else best"]
    by (auto simp: highestProduction_Cons)
qed

lemma highestProduction_member:
  "highestProduction results best = best \<or> highestProduction results best \<in> set results"
proof (induction results arbitrary: best)
  case Nil
  show ?case by (simp add: highestProduction_Nil)
next
  case (Cons r results)
  show ?case
    using Cons.IH [of "if snd r > snd best then r else best"]
    by (auto simp: highestProduction_Cons)
qed

lemma highestProduction_keeps:
  "\<forall>r\<in>set results. snd r \<le> snd best \<Longrightarrow> highestProduction results best = best"
  by (induction results arbitrary: best) (simp_all add: highestProduction_Nil highestProduction_Cons)

lemma highestProduction_takes:
  assumes "\<exists>r\<in>set results. snd best < snd r"
  shows "highestProduction results best \<in> set results"
proof -
  from assms obtain r where r: "r \<in> set results" "snd best < snd r" by blast
  then have "snd r \<le> snd (highestProduction results best)"
    using highestProduction_bounds [of best results] by blast
  with r have "highestProduction results best \<noteq> best" by auto
  then show ?thesis using highestProduction_member [of results best] by blast
qed

text \<open>The production sweep on a cache miss, in terms of the tested angles and their yields.\<close>

lemma optimal_miss:
  assumes "freshEntry (tiltCache st (getCacheKey latitude longitude)) now = None"
  shows "getOptimalTiltFromPVWatts fetch now later st latitude longitude =
     (let best = highestProduction
                   (map (\<lambda>a. (a, annualYield fetch latitude longitude a)) (optimalTestAngles latitude))
                   (\<bar>latitude\<bar>, 0)
      in (\<lparr>OptimalTiltResult.tilt = fst best, annualProduction = snd best, confidence = live\<rparr>,
          st\<lparr>tiltCache := (tiltCache st)(getCacheKey latitude longitude \<mapsto>
                \<lparr>cache_entry.tilt = fst best, timestamp = later\<rparr>)\<rparr>,
          concat (map snd (map (annualRequest fetch latitude longitude) (optimalTestAngles latitude)))))"
proof -
  have results: "map (fst \<circ> annualRequest fetch latitude longitude) (optimalTestAngles latitude)
      = map (\<lambda>a. (a, annualYield fetch latitude longitude a)) (optimalTestAngles latitude)"
    by (simp add: annualRequest_fst)
  show ?thesis
    using assms
    by (simp add: getOptimalTiltFromPVWatts_def optimalSweep_def Let_def case_prod_beta results)
qed

lemma optimal_hit:
  assumes "freshEntry (tiltCache st (getCacheKey latitude longitude)) now = Some entry"
  shows "getOptimalTiltFromPVWatts fetch now later st latitude longitude =
     (\<lparr>OptimalTiltResult.tilt = cache_entry.tilt entry, annualProduction = 0, confidence = cached\<rparr>,
      st, [])"
  using assms by (simp add: getOptimalTiltFromPVWatts_def Let_def)

lemma optimalTestAngles_base:
  "\<bar>latitude\<bar> \<le> 90 \<Longrightarrow> \<bar>latitude\<bar> \<in> set (optimalTestAngles latitude)"
  by (simp add: optimalTestAngles_def Let_def)

lemma optimalTestAngles_five:
  "10 \<le> \<bar>latitude\<bar> \<Longrightarrow> \<bar>latitude\<bar> \<le> 80 \<Longrightarrow> length (optimalTestAngles latitude) = 5"
  by (simp add: optimalTestAngles_def Let_def)

lemma key_40_105: "getCacheKey 40 (- 105) = ''40.00,-105.00''"
  by (simp add: getCacheKey_def toFixed2_def hundredths_def decimal.simps digit_def)

lemma key_5_0: "getCacheKey 5 0 = ''5.00,0.00''"
  by (simp add: getCacheKey_def toFixed2_def hundredths_def decimal.simps digit_def)

lemma miss_empty: "freshEntry (tiltCache emptyCaches k) now = None"
  by (simp add: freshEntry_def emptyCaches_def)

lemma yields_one_down:
  "annualYield service_one_down 40 (- 105) 30 = 0"
  "annualYield service_one_down 40 (- 105) 35 = 5000"
  "annualYield service_one_down 40 (- 105) 40 = 4000"
  "annualYield service_one_down 40 (- 105) 45 = 4000"
  "annualYield service_one_down 40 (- 105) 50 = 4000"
  by (simp_all add: annualYield_def annualRequest_def callPVWatts_def service_one_down_def
      answer_def Let_def)

lemma run_one_down:
  "getOptimalTiltFromPVWatts service_one_down 0 10 emptyCaches 40 (- 105) =
     (\<lparr>OptimalTiltResult.tilt = 35, annualProduction = 5000, confidence = live\<rparr>,
      emptyCaches\<lparr>tiltCache := (tiltCache emptyCaches)(''40.00,-105.00'' \<mapsto>
                \<lparr>cache_entry.tilt = 35, timestamp = 10\<rparr>)\<rparr>,
      concat (map snd (map (annualRequest service_one_down 40 (- 105)) [30, 35, 40, 45, 50])))"
  by (simp add: optimal_miss [OF miss_empty] optimalTestAngles_def yields_one_down
      highestProduction_def key_40_105 Let_def)

lemma optimal_choice:
  fixes fetch latitude longitude
  defines "tested \<equiv> optimalTestAngles latitude"
    and "yield \<equiv> annualYield fetch latitude longitude"
    and "best \<equiv> highestProduction (map (\<lambda>a. (a, annualYield fetch latitude longitude a))
                   (optimalTestAngles latitude)) (\<bar>latitude\<bar>, 0)"
  shows "(\<exists>a\<in>set tested. 0 < yield a) \<Longrightarrow>
           fst best \<in> set tested \<and> snd best = yield (fst best) \<and> 0 < snd best
           \<and> (\<forall>a\<in>set tested. yield a \<le> yield (fst best))"
    and "(\<forall>a\<in>set tested. yield a \<le> 0) \<Longrightarrow> best = (\<bar>latitude\<bar>, 0)"
proof -
  let ?results = "map (\<lambda>a. (a, yield a)) tested"
  have best: "best = highestProduction ?results (\<bar>latitude\<bar>, 0)"
    by (simp add: best_def tested_def yield_def)
  {
    assume "\<exists>a\<in>set tested. 0 < yield a"
    then have "\<exists>r\<in>set ?results. snd (\<bar>latitude\<bar>, 0::real) < snd r" by auto
    then have "best \<in> set ?results"
      unfolding best by (rule highestProduction_takes)
    then have mem: "fst best \<in> set tested" "snd best = yield (fst best)" by auto
    have bounds: "0 \<le> snd best" "\<forall>r\<in>set ?results. snd r \<le> snd best"
      using highestProduction_bounds [of "(\<bar>latitude\<bar>, 0)" ?results] by (simp_all add: best)
    then have all: "\<forall>a\<in>set tested. yield a \<le> yield (fst best)"
      using mem(2) by auto
    with \<open>\<exists>a\<in>set tested. 0 < yield a\<close> have "0 < snd best"
      using mem(2) by force
    with mem all
    show "fst best \<in> set tested \<and> snd best = yield (fst best) \<and> 0 < snd best
           \<and> (\<forall>a\<in>set tested. yield a \<le> yield (fst best))" by blast
  }
  {
    assume "\<forall>a\<in>set tested. yield a \<le> 0"
    then have "\<forall>r\<in>set ?results. snd r \<le> snd (\<bar>latitude\<bar>, 0::real)" by auto
    then show "best = (\<bar>latitude\<bar>, 0)"
      unfolding best by (rule highestProduction_keeps)
  }
qed

lemma calls_one_down:
  "map query_tilt (concat (map snd (map (annualRequest service_one_down 40 (- 105)) [30, 35, 40, 45, 50])))
     = [30, 35, 40, 45, 50]"
  by (rule sweep_calls)

lemma run_lat5:
  "map query_tilt (snd (snd (getOptimalTiltFromPVWatts service_one_down 0 10 emptyCaches 5 0)))
     = [0, 5, 10, 15]"
  using sweep_calls [of service_one_down 5 0 "[0, 5, 10, 15]"]
  by (simp add: optimal_miss [OF miss_empty] optimalTestAngles_def Let_def)

lemma optimal_never_fallback:
  "OptimalTiltResult.confidence (fst (getOptimalTiltFromPVWatts fetch now later st latitude longitude))
     \<noteq> fallback"
proof (cases "freshEntry (tiltCache st (getCacheKey latitude longitude)) now")
  case None
  then show ?thesis by (simp add: optimal_miss Let_def)
next
  case (Some entry)
  then show ?thesis by (simp add: optimal_hit)
qed

lemma fails_one_down: "requestFails service_one_down 40 (- 105) 30"
  by (simp add: requestFails_def callPVWatts_def service_one_down_def Let_def)

lemma key_near_40_105: "getCacheKey 40.001 (- 104.999) = ''40.00,-105.00''"
  by (simp add: getCacheKey_def toFixed2_def hundredths_def decimal.simps digit_def)

lemma key_sydney: "getCacheKey (- 33.87) 151.21 = ''-33.87,151.21''"
  by (simp add: getCacheKey_def toFixed2_def hundredths_def decimal.simps digit_def)

text \<open>
  C3, as stated, fails. At latitude 5 the candidate \<open>-5\<close> is dropped, not clipped to 0: four
  requests are issued, for the tilts 0, 5, 10 and 15, where the claim has five candidates
  0, 0, 5, 10, 15.
\<close>

theorem production_sweep_five_clipped_counterexample:
  "map query_tilt (snd (snd (getOptimalTiltFromPVWatts service_one_down 0 10 emptyCaches 5 0)))
     = [0, 5, 10, 15]
   \<and> spec_sweep_candidates 5 = [0, 0, 5, 10, 15]
   \<and> length (snd (snd (getOptimalTiltFromPVWatts service_one_down 0 10 emptyCaches 5 0))) \<noteq> 5"
proof -
  have "length (map query_tilt (snd (snd (getOptimalTiltFromPVWatts service_one_down 0 10 emptyCaches 5 0)))) = 4"
    by (simp only: run_lat5) simp
  then have "length (snd (snd (getOptimalTiltFromPVWatts service_one_down 0 10 emptyCaches 5 0))) = 4"
    by (simp only: length_map)
  then show ?thesis
    by (simp add: run_lat5 spec_sweep_candidates_def)
qed

text \<open>
  C3, amended. On a cache miss the tilts requested are exactly those of \<open>base - 10\<close>,
  \<open>base - 5\<close>, \<open>base\<close>, \<open>base + 5\<close>, \<open>base + 10\<close> (\<open>base = |latitude|\<close>) that lie in
  \<open>[0, 90]\<close>, in this order; they are five when \<open>10 \<le> base \<le> 80\<close>. When some requested
  tilt has a positive yield, the returned tilt is a requested tilt of highest yield and
  \<open>annualProduction\<close> is that yield; when none has, the returned tilt is \<open>base\<close>.
\<close>

theorem production_sweep_tests_in_range_candidates:
  assumes miss: "freshEntry (tiltCache st (getCacheKey latitude longitude)) now = None"
    and run: "getOptimalTiltFromPVWatts fetch now later st latitude longitude = (r, st', calls)"
  shows "map query_tilt calls
           = filter (\<lambda>a. 0 \<le> a \<and> a \<le> 90)
               [\<bar>latitude\<bar> - 10, \<bar>latitude\<bar> - 5, \<bar>latitude\<bar>, \<bar>latitude\<bar> + 5, \<bar>latitude\<bar> + 10]
       \<and> (10 \<le> \<bar>latitude\<bar> \<and> \<bar>latitude\<bar> \<le> 80 \<longrightarrow> length calls = 5)
       \<and> ((\<exists>a\<in>set (map query_tilt calls). 0 < annualYield fetch latitude longitude a) \<longrightarrow>
            OptimalTiltResult.tilt r \<in> set (map query_tilt calls)
            \<and> annualProduction r = annualYield fetch latitude longitude (OptimalTiltResult.tilt r)
            \<and> (\<forall>a\<in>set (map query_tilt calls).
                  annualYield fetch latitude longitude a
                    \<le> annualYield fetch latitude longitude (OptimalTiltResult.tilt r)))
       \<and> ((\<forall>a\<in>set (map query_tilt calls). annualYield fetch latitude longitude a \<le> 0) \<longrightarrow>
            OptimalTiltResult.tilt r = \<bar>latitude\<bar>)"
proof -
  let ?best = "highestProduction (map (\<lambda>a. (a, annualYield fetch latitude longitude a))
                   (optimalTestAngles latitude)) (\<bar>latitude\<bar>, 0)"
  from run have r: "OptimalTiltResult.tilt r = fst ?best" "annualProduction r = snd ?best"
    by (auto simp: optimal_miss [OF miss] Let_def)
  from run have tested: "map query_tilt calls = optimalTestAngles latitude"
    using sweep_calls [of fetch latitude longitude "optimalTestAngles latitude"]
    by (auto simp: optimal_miss [OF miss] Let_def)
  have len: "length calls = length (optimalTestAngles latitude)"
    using arg_cong [OF tested, of length] by simp
  have angles: "map query_tilt calls
           = filter (\<lambda>a. 0 \<le> a \<and> a \<le> 90)
               [\<bar>latitude\<bar> - 10, \<bar>latitude\<bar> - 5, \<bar>latitude\<bar>, \<bar>latitude\<bar> + 5, \<bar>latitude\<bar> + 10]"
    unfolding tested by (simp add: optimalTestAngles_def Let_def)
  have five: "10 \<le> \<bar>latitude\<bar> \<and> \<bar>latitude\<bar> \<le> 80 \<longrightarrow> length calls = 5"
    using optimalTestAngles_five [of latitude] len by simp
  note choice = optimal_choice [where fetch = fetch and latitude = latitude and longitude = longitude]
  have some: "(\<exists>a\<in>set (map query_tilt calls). 0 < annualYield fetch latitude longitude a) \<longrightarrow>
            OptimalTiltResult.tilt r \<in> set (map query_tilt calls)
            \<and> annualProduction r = annualYield fetch latitude longitude (OptimalTiltResult.tilt r)
            \<and> (\<forall>a\<in>set (map query_tilt calls).
                  annualYield fetch latitude longitude a
                    \<le> annualYield fetch latitude longitude (OptimalTiltResult.tilt r))"
    unfolding tested r using choice(1) by blast
  have none: "(\<forall>a\<in>set (map query_tilt calls). annualYield fetch latitude longitude a \<le> 0) \<longrightarrow>
            OptimalTiltResult.tilt r = \<bar>latitude\<bar>"
    unfolding tested r using choice(2) by simp
  from angles five some none show ?thesis by blast
qed

text \<open>
  The amended C3 at latitude 40, longitude -105, on empty caches: the five tilts 30 to 50
  are requested and 35, of yield 5000, is returned.
\<close>

theorem production_sweep_tests_in_range_candidates_witness:
  "freshEntry (tiltCache emptyCaches (getCacheKey 40 (- 105))) 0 = None
   \<and> map query_tilt (snd (snd (getOptimalTiltFromPVWatts service_one_down 0 10 emptyCaches 40 (- 105))))
       = [30, 35, 40, 45, 50]
   \<and> fst (getOptimalTiltFromPVWatts service_one_down 0 10 emptyCaches 40 (- 105))
       = \<lparr>OptimalTiltResult.tilt = 35, annualProduction = 5000, confidence = live\<rparr>
   \<and> list_all (\<lambda>a. annualYield service_one_down 40 (- 105) a
                      \<le> annualYield service_one_down 40 (- 105) 35) [30, 35, 40, 45, 50]"
proof -
  obtain r st' calls where
    run: "getOptimalTiltFromPVWatts service_one_down 0 10 emptyCaches 40 (- 105) = (r, st', calls)"
    by (rule prod_cases3)
  have r: "r = \<lparr>OptimalTiltResult.tilt = 35, annualProduction = 5000, confidence = live\<rparr>"
    and calls: "map query_tilt calls = [30, 35, 40, 45, 50]"
    using run calls_one_down by (simp_all add: run_one_down)
  have "0 < annualYield service_one_down 40 (- 105) 35"
    by (simp add: yields_one_down)
  then have "\<exists>a\<in>set (map query_tilt calls). 0 < annualYield service_one_down 40 (- 105) a"
    unfolding calls by simp
  with production_sweep_tests_in_range_candidates [OF miss_empty run]
  have "\<forall>a\<in>set (map query_tilt calls).
          annualYield service_one_down 40 (- 105) a
            \<le> annualYield service_one_down 40 (- 105) (OptimalTiltResult.tilt r)"
    by blast
  then have "list_all (\<lambda>a. annualYield service_one_down 40 (- 105) a
                      \<le> annualYield service_one_down 40 (- 105) 35) [30, 35, 40, 45, 50]"
    unfolding calls by (simp add: r)
  then show ?thesis
    using miss_empty [of "getCacheKey 40 (- 105)" 0] r calls by (simp add: run)
qed

text \<open>
  C5, as stated, fails. With the request for tilt 30 failing and the others answered, the
  call returns tilt 35 tagged \<open>live\<close>, not \<open>0.87 * 40\<close> tagged \<open>fallback\<close>.
\<close>

theorem fallback_on_any_failure_counterexample:
  "requestFails service_one_down 40 (- 105) 30
   \<and> \<not> (OptimalTiltResult.tilt (fst (getOptimalTiltFromPVWatts service_one_down 0 10 emptyCaches 40 (- 105)))
            = 0.87 * \<bar>40\<bar>
          \<and> OptimalTiltResult.confidence
              (fst (getOptimalTiltFromPVWatts service_one_down 0 10 emptyCaches 40 (- 105))) = fallback)"
  by (simp add: fails_one_down run_one_down)

text \<open>
  C5, amended. A failed candidate request counts as a yield of 0. On a cache miss, when at
  least one tested angle has a positive yield, the call returns confidence \<open>live\<close>; the
  returned tilt is a tested angle whose own request did not fail, and \<open>annualProduction\<close>
  is its positive yield.
\<close>

theorem failed_candidate_counts_as_zero:
  assumes miss: "freshEntry (tiltCache st (getCacheKey latitude longitude)) now = None"
    and run: "getOptimalTiltFromPVWatts fetch now later st latitude longitude = (r, st', calls)"
    and some: "\<exists>a\<in>set (optimalTestAngles latitude). 0 < annualYield fetch latitude longitude a"
  shows "(\<forall>a. requestFails fetch latitude longitude a \<longrightarrow> annualYield fetch latitude longitude a = 0)
       \<and> OptimalTiltResult.confidence r = live
       \<and> OptimalTiltResult.tilt r \<in> set (optimalTestAngles latitude)
       \<and> \<not> requestFails fetch latitude longitude (OptimalTiltResult.tilt r)
       \<and> annualProduction r = annualYield fetch latitude longitude (OptimalTiltResult.tilt r)
       \<and> 0 < annualProduction r"
proof -
  let ?best = "highestProduction (map (\<lambda>a. (a, annualYield fetch latitude longitude a))
                   (optimalTestAngles latitude)) (\<bar>latitude\<bar>, 0)"
  from run have r: "OptimalTiltResult.tilt r = fst ?best" "annualProduction r = snd ?best"
    "OptimalTiltResult.confidence r = live"
    by (auto simp: optimal_miss [OF miss] Let_def)
  note choice = optimal_choice(1) [where fetch = fetch and latitude = latitude
      and longitude = longitude, OF some]
  have pos: "0 < annualYield fetch latitude longitude (OptimalTiltResult.tilt r)"
    using choice by (simp add: r)
  then have "\<not> requestFails fetch latitude longitude (OptimalTiltResult.tilt r)"
    using requestFails_yield [of fetch latitude longitude "OptimalTiltResult.tilt r"] by auto
  then show ?thesis
    using choice pos by (simp add: r requestFails_yield)
qed

text \<open>The amended C5 on the service whose request for tilt 30 fails.\<close>

theorem failed_candidate_counts_as_zero_witness:
  "freshEntry (tiltCache emptyCaches (getCacheKey 40 (- 105))) 0 = None
   \<and> 0 < annualYield service_one_down 40 (- 105) 35
   \<and> requestFails service_one_down 40 (- 105) 30
   \<and> annualYield service_one_down 40 (- 105) 30 = 0
   \<and> OptimalTiltResult.confidence
        (fst (getOptimalTiltFromPVWatts service_one_down 0 10 emptyCaches 40 (- 105))) = live
   \<and> OptimalTiltResult.tilt
        (fst (getOptimalTiltFromPVWatts service_one_down 0 10 emptyCaches 40 (- 105))) = 35
   \<and> \<not> requestFails service_one_down 40 (- 105) 35"
proof -
  obtain r st' calls where
    run: "getOptimalTiltFromPVWatts service_one_down 0 10 emptyCaches 40 (- 105) = (r, st', calls)"
    by (rule prod_cases3)
  have r: "OptimalTiltResult.tilt r = 35"
    using run by (auto simp: run_one_down)
  have some: "\<exists>a\<in>set (optimalTestAngles 40). 0 < annualYield service_one_down 40 (- 105) a"
    by (simp add: optimalTestAngles_def yields_one_down)
  from failed_candidate_counts_as_zero [OF miss_empty run some] r
  show ?thesis
    using miss_empty [of "getCacheKey 40 (- 105)" 0] fails_one_down
    by (simp add: run yields_one_down)
qed

text \<open>
  C8. After a call that fetched (confidence \<open>live\<close>) and wrote the cache at time \<open>later\<close>, a
  second call whose coordinates give the same cache key returns the same tilt, tagged
  \<open>cached\<close>, with no request and the caches unchanged, as long as fewer than 24 hours have
  passed since \<open>later\<close>; once 24 hours have passed, a second call for a latitude in
  \<open>[-90, 90]\<close> issues requests again and returns \<open>live\<close>.
\<close>

theorem tilt_cache_round_trip:
  assumes run: "getOptimalTiltFromPVWatts fetch now later st latitude longitude = (r, st', calls)"
    and fetched: "OptimalTiltResult.confidence r = live"
    and key: "getCacheKey latitude' longitude' = getCacheKey latitude longitude"
  shows "(now' - later < CACHE_DURATION \<longrightarrow>
            getOptimalTiltFromPVWatts fetch' now' later' st' latitude' longitude'
              = (\<lparr>OptimalTiltResult.tilt = OptimalTiltResult.tilt r, annualProduction = 0,
                  confidence = cached\<rparr>, st', []))
       \<and> (CACHE_DURATION \<le> now' - later \<and> \<bar>latitude'\<bar> \<le> 90 \<longrightarrow>
            snd (snd (getOptimalTiltFromPVWatts fetch' now' later' st' latitude' longitude')) \<noteq> []
            \<and> OptimalTiltResult.confidence
                 (fst (getOptimalTiltFromPVWatts fetch' now' later' st' latitude' longitude')) = live)"
proof -
  have miss: "freshEntry (tiltCache st (getCacheKey latitude longitude)) now = None"
  proof (cases "freshEntry (tiltCache st (getCacheKey latitude longitude)) now")
    case (Some entry)
    with run fetched show ?thesis by (auto simp: optimal_hit)
  qed simp
  from run have entry: "tiltCache st' (getCacheKey latitude' longitude')
      = Some \<lparr>cache_entry.tilt = OptimalTiltResult.tilt r, timestamp = later\<rparr>"
    by (auto simp: optimal_miss [OF miss] Let_def key)
  have hit: "now' - later < CACHE_DURATION \<longrightarrow>
            getOptimalTiltFromPVWatts fetch' now' later' st' latitude' longitude'
              = (\<lparr>OptimalTiltResult.tilt = OptimalTiltResult.tilt r, annualProduction = 0,
                  confidence = cached\<rparr>, st', [])"
    by (simp add: getOptimalTiltFromPVWatts_def entry freshEntry_def Let_def)
  have expired: "CACHE_DURATION \<le> now' - later \<and> \<bar>latitude'\<bar> \<le> 90 \<longrightarrow>
            snd (snd (getOptimalTiltFromPVWatts fetch' now' later' st' latitude' longitude')) \<noteq> []
            \<and> OptimalTiltResult.confidence
                 (fst (getOptimalTiltFromPVWatts fetch' now' later' st' latitude' longitude')) = live"
  proof (intro impI, elim conjE)
    assume old: "CACHE_DURATION \<le> now' - later" and range: "\<bar>latitude'\<bar> \<le> 90"
    from old have miss': "freshEntry (tiltCache st' (getCacheKey latitude' longitude')) now' = None"
      by (simp add: entry freshEntry_def)
    have "map query_tilt (snd (snd (getOptimalTiltFromPVWatts fetch' now' later' st' latitude' longitude')))
        = optimalTestAngles latitude'"
      using sweep_calls [of fetch' latitude' longitude' "optimalTestAngles latitude'"]
      by (simp add: optimal_miss [OF miss'] Let_def)
    moreover have "optimalTestAngles latitude' \<noteq> []"
      using optimalTestAngles_base [OF range] by auto
    ultimately have "snd (snd (getOptimalTiltFromPVWatts fetch' now' later' st' latitude' longitude')) \<noteq> []"
      by auto
    then show "snd (snd (getOptimalTiltFromPVWatts fetch' now' later' st' latitude' longitude')) \<noteq> []
            \<and> OptimalTiltResult.confidence
                 (fst (getOptimalTiltFromPVWatts fetch' now' later' st' latitude' longitude')) = live"
      by (simp add: optimal_miss [OF miss'] Let_def)
  qed
  from hit expired show ?thesis by blast
qed

text \<open>
  C8 for a fetch at (40, -105) and a second call at (40.001, -104.999), one hour later and
  24 hours later, with the service down the second time.
\<close>

theorem tilt_cache_round_trip_witness:
  "OptimalTiltResult.confidence
      (fst (getOptimalTiltFromPVWatts service_one_down 0 10 emptyCaches 40 (- 105))) = live
   \<and> getCacheKey 40.001 (- 104.999) = getCacheKey 40 (- 105)
   \<and> (3600000::int) - 10 < CACHE_DURATION
   \<and> getOptimalTiltFromPVWatts service_down 3600000 3600005
        (fst (snd (getOptimalTiltFromPVWatts service_one_down 0 10 emptyCaches 40 (- 105))))
        40.001 (- 104.999)
      = (\<lparr>OptimalTiltResult.tilt = 35, annualProduction = 0, confidence = cached\<rparr>,
         fst (snd (getOptimalTiltFromPVWatts service_one_down 0 10 emptyCaches 40 (- 105))), [])
   \<and> CACHE_DURATION \<le> (86400010::int) - 10
   \<and> \<bar>40.001::real\<bar> \<le> 90
   \<and> snd (snd (getOptimalTiltFromPVWatts service_down 86400010 86400020
        (fst (snd (getOptimalTiltFromPVWatts service_one_down 0 10 emptyCaches 40 (- 105))))
        40.001 (- 104.999))) \<noteq> []"
proof -
  obtain r st' calls where
    run: "getOptimalTiltFromPVWatts service_one_down 0 10 emptyCaches 40 (- 105) = (r, st', calls)"
    by (rule prod_cases3)
  have r: "OptimalTiltResult.tilt r = 35" "OptimalTiltResult.confidence r = live"
    using run by (auto simp: run_one_down)
  have key: "getCacheKey 40.001 (- 104.999) = getCacheKey 40 (- 105)"
    by (simp only: key_near_40_105 key_40_105)
  have young: "(3600000::int) - 10 < CACHE_DURATION" by (simp add: CACHE_DURATION_def)
  have old: "CACHE_DURATION \<le> (86400010::int) - 10" by (simp add: CACHE_DURATION_def)
  have range: "\<bar>40.001::real\<bar> \<le> 90" by simp
  from tilt_cache_round_trip [OF run r(2) key, of 3600000 service_down 3600005] young
  have hit: "getOptimalTiltFromPVWatts service_down 3600000 3600005 st' 40.001 (- 104.999)
      = (\<lparr>OptimalTiltResult.tilt = 35, annualProduction = 0, confidence = cached\<rparr>, st', [])"
    by (simp add: r)
  from tilt_cache_round_trip [OF run r(2) key, of 86400010 service_down 86400020] old range
  have fresh: "snd (snd (getOptimalTiltFromPVWatts service_down 86400010 86400020 st' 40.001 (- 104.999))) \<noteq> []"
    by blast
  show ?thesis
    using r(2) key young old range hit fresh by (simp add: run)
qed

text \<open>
  C10. On a cache miss with every candidate request failing, the call returns tilt
  \<open>|latitude|\<close>, \<open>annualProduction = 0\<close> and confidence \<open>live\<close>, writes \<open>|latitude|\<close> into
  the cache, and a later call with the same cache key within 24 hours returns \<open>|latitude|\<close>
  tagged \<open>cached\<close> without any request.
\<close>

theorem all_candidates_failed_is_live_and_cached:
  assumes miss: "freshEntry (tiltCache st (getCacheKey latitude longitude)) now = None"
    and failed: "\<forall>a\<in>set (optimalTestAngles latitude). requestFails fetch latitude longitude a"
    and run: "getOptimalTiltFromPVWatts fetch now later st latitude longitude = (r, st', calls)"
  shows "r = \<lparr>OptimalTiltResult.tilt = \<bar>latitude\<bar>, annualProduction = 0, confidence = live\<rparr>
       \<and> tiltCache st' (getCacheKey latitude longitude)
           = Some \<lparr>cache_entry.tilt = \<bar>latitude\<bar>, timestamp = later\<rparr>
       \<and> (getCacheKey latitude' longitude' = getCacheKey latitude longitude
            \<and> now' - later < CACHE_DURATION \<longrightarrow>
            getOptimalTiltFromPVWatts fetch' now' later' st' latitude' longitude'
              = (\<lparr>OptimalTiltResult.tilt = \<bar>latitude\<bar>, annualProduction = 0, confidence = cached\<rparr>,
                 st', []))"
proof -
  have "\<forall>a\<in>set (optimalTestAngles latitude). annualYield fetch latitude longitude a \<le> 0"
    using failed by (simp add: requestFails_yield)
  then have best: "highestProduction (map (\<lambda>a. (a, annualYield fetch latitude longitude a))
                   (optimalTestAngles latitude)) (\<bar>latitude\<bar>, 0) = (\<bar>latitude\<bar>, 0)"
    by (rule optimal_choice(2))
  from run have r: "r = \<lparr>OptimalTiltResult.tilt = \<bar>latitude\<bar>, annualProduction = 0, confidence = live\<rparr>"
    and entry: "tiltCache st' (getCacheKey latitude longitude)
           = Some \<lparr>cache_entry.tilt = \<bar>latitude\<bar>, timestamp = later\<rparr>"
    by (auto simp: optimal_miss [OF miss] best Let_def)
  have "getCacheKey latitude' longitude' = getCacheKey latitude longitude
            \<and> now' - later < CACHE_DURATION \<longrightarrow>
            getOptimalTiltFromPVWatts fetch' now' later' st' latitude' longitude'
              = (\<lparr>OptimalTiltResult.tilt = \<bar>latitude\<bar>, annualProduction = 0, confidence = cached\<rparr>,
                 st', [])"
    by (simp add: getOptimalTiltFromPVWatts_def entry freshEntry_def Let_def)
  with r entry show ?thesis by blast
qed

text \<open>C10 at (-33.87, 151.21) with the service down.\<close>

theorem all_candidates_failed_is_live_and_cached_witness:
  "freshEntry (tiltCache emptyCaches (getCacheKey (- 33.87) 151.21)) 1000 = None
   \<and> list_all (requestFails service_down (- 33.87) 151.21) (optimalTestAngles (- 33.87))
   \<and> fst (getOptimalTiltFromPVWatts service_down 1000 1500 emptyCaches (- 33.87) 151.21)
       = \<lparr>OptimalTiltResult.tilt = 33.87, annualProduction = 0, confidence = live\<rparr>
   \<and> (5000::int) - 1500 < CACHE_DURATION
   \<and> fst (getOptimalTiltFromPVWatts service_one_down 5000 5500
        (fst (snd (getOptimalTiltFromPVWatts service_down 1000 1500 emptyCaches (- 33.87) 151.21)))
        (- 33.87) 151.21)
       = \<lparr>OptimalTiltResult.tilt = 33.87, annualProduction = 0, confidence = cached\<rparr>"
proof -
  obtain r st' calls where
    run: "getOptimalTiltFromPVWatts service_down 1000 1500 emptyCaches (- 33.87) 151.21 = (r, st', calls)"
    by (rule prod_cases3)
  have failed: "\<forall>a\<in>set (optimalTestAngles (- 33.87)). requestFails service_down (- 33.87) 151.21 a"
    by (simp add: requestFails_def callPVWatts_def service_down_def Let_def)
  have young: "(5000::int) - 1500 < CACHE_DURATION" by (simp add: CACHE_DURATION_def)
  note inst = all_candidates_failed_is_live_and_cached [OF miss_empty failed run, of "- 33.87" "151.21" 5000 service_one_down 5500]
  from inst have r: "r = \<lparr>OptimalTiltResult.tilt = 33.87, annualProduction = 0, confidence = live\<rparr>"
    by simp
  from inst young
  have again: "getOptimalTiltFromPVWatts service_one_down 5000 5500 st' (- 33.87) 151.21
      = (\<lparr>OptimalTiltResult.tilt = 33.87, annualProduction = 0, confidence = cached\<rparr>, st', [])"
    by simp
  have c1: "freshEntry (tiltCache emptyCaches (getCacheKey (- 33.87) 151.21)) 1000 = None"
    by (rule miss_empty)
  have c2: "list_all (requestFails service_down (- 33.87) 151.21) (optimalTestAngles (- 33.87))"
    using failed by (simp only: list_all_iff)
  have c3: "fst (r, st', calls)
       = \<lparr>OptimalTiltResult.tilt = 33.87, annualProduction = 0, confidence = live\<rparr>"
    using r by simp
  have c5: "fst (getOptimalTiltFromPVWatts service_one_down 5000 5500
        (fst (snd (r, st', calls))) (- 33.87) 151.21)
       = \<lparr>OptimalTiltResult.tilt = 33.87, annualProduction = 0, confidence = cached\<rparr>"
    using again by simp
  show ?thesis
    unfolding run using c1 c2 c3 young c5 by blast
qed

section \<open>Facts about the winter-priority estimation\<close>

lemma winterCandidate_tilt: "fst (winterCandidate fetch latitude longitude a) = a"
  by (simp add: winterCandidate_def monthlyRequest_def case_prod_beta
      split: sum.splits option.splits)

lemma monthlyRequest_calls:
  "map query_tilt (snd (monthlyRequest fetch latitude longitude a)) = [a]"
  by (simp add: monthlyRequest_def callPVWatts_def case_prod_beta Let_def)

lemma winter_sweep_calls:
  "map query_tilt (concat (map (snd \<circ> monthlyRequest fetch latitude longitude) angles)) = angles"
  by (induction angles) (simp_all add: monthlyRequest_calls)

lemma find_sorted_least:
  fixes k :: "'a \<Rightarrow> real"
  shows "sorted (map k xs) \<Longrightarrow> find P xs = Some x \<Longrightarrow> \<forall>y\<in>set xs. P y \<longrightarrow> k x \<le> k y"
  by (induction xs) (auto split: if_splits)

lemma sorted_last_greatest:
  fixes k :: "'a \<Rightarrow> real"
  shows "xs \<noteq> [] \<Longrightarrow> sorted (map k xs) \<Longrightarrow> \<forall>y\<in>set xs. k y \<le> k (last xs)"
  by (induction xs) auto

lemma winterTestAngles_base:
  "\<bar>latitude\<bar> \<le> 90 \<Longrightarrow> \<bar>latitude\<bar> \<in> set (winterTestAngles latitude)"
  by (simp add: winterTestAngles_def Let_def)

lemma winterTestAngles_lower:
  assumes "a \<in> set (winterTestAngles latitude)"
  shows "\<bar>latitude\<bar> \<le> a"
proof -
  from assms have "a \<in> set (map (\<lambda>offset. \<bar>latitude\<bar> + offset) [0, 5, 10, 15, 20, 25])"
    unfolding winterTestAngles_def Let_def set_filter by blast
  then show ?thesis by auto
qed

lemma winter_choice:
  fixes fetch latitude longitude
  defines "k \<equiv> (\<lambda>(t :: real, j :: real option, d :: real option). - t)"
  defines "results \<equiv> sort_key k
             (map (winterCandidate fetch latitude longitude) (winterTestAngles latitude))"
  assumes range: "\<bar>latitude\<bar> \<le> 90"
  shows "find juneCoversDecember results = Some x \<Longrightarrow>
           fst x \<in> set (winterTestAngles latitude)
           \<and> winterQualifies fetch latitude longitude (fst x)
           \<and> (\<forall>a\<in>set (winterTestAngles latitude).
                 winterQualifies fetch latitude longitude a \<longrightarrow> a \<le> fst x)"
    and "find juneCoversDecember results = None \<Longrightarrow>
           results \<noteq> [] \<and> fst (last results) = \<bar>latitude\<bar>
           \<and> (\<forall>a\<in>set (winterTestAngles latitude). \<not> winterQualifies fetch latitude longitude a)"
proof -
  let ?angles = "winterTestAngles latitude"
  let ?cand = "winterCandidate fetch latitude longitude"
  have set_results: "set results = ?cand ` set ?angles"
    by (simp add: results_def)
  have sorted: "sorted (map k results)"
    by (simp add: results_def)
  have key: "k (?cand a) = - a" for a
    using winterCandidate_tilt [of fetch latitude longitude a]
    by (cases "?cand a") (simp add: k_def)
  {
    assume found: "find juneCoversDecember results = Some x"
    then have "x \<in> set results" "juneCoversDecember x"
      by (auto simp: find_Some_iff)
    then obtain a where a: "a \<in> set ?angles" "x = ?cand a"
      using set_results by auto
    then have fx: "fst x = a" by (simp add: winterCandidate_tilt)
    have least: "\<forall>y\<in>set results. juneCoversDecember y \<longrightarrow> k x \<le> k y"
      using sorted found by (rule find_sorted_least)
    have "\<forall>b\<in>set ?angles. winterQualifies fetch latitude longitude b \<longrightarrow> b \<le> a"
    proof (intro ballI impI)
      fix b assume b: "b \<in> set ?angles" "winterQualifies fetch latitude longitude b"
      then have "?cand b \<in> set results" "juneCoversDecember (?cand b)"
        by (simp_all add: set_results winterQualifies_def)
      with least have "k x \<le> k (?cand b)" by blast
      then show "b \<le> a" by (simp add: a(2) key)
    qed
    then show "fst x \<in> set ?angles
           \<and> winterQualifies fetch latitude longitude (fst x)
           \<and> (\<forall>a\<in>set ?angles. winterQualifies fetch latitude longitude a \<longrightarrow> a \<le> fst x)"
      using a \<open>juneCoversDecember x\<close> by (simp add: winterCandidate_tilt winterQualifies_def)
  }
  {
    assume none: "find juneCoversDecember results = None"
    have base: "\<bar>latitude\<bar> \<in> set ?angles" using range by (rule winterTestAngles_base)
    then have ne: "results \<noteq> []" using set_results by auto
    then have "last results \<in> set results" by simp
    then obtain a where a: "a \<in> set ?angles" "last results = ?cand a"
      using set_results by auto
    have "?cand \<bar>latitude\<bar> \<in> set results" using base by (simp add: set_results)
    then have "k (?cand \<bar>latitude\<bar>) \<le> k (last results)"
      using sorted_last_greatest [OF ne sorted] by blast
    then have "a \<le> \<bar>latitude\<bar>" by (simp add: a(2) key)
    moreover have "\<bar>latitude\<bar> \<le> a" using a(1) by (rule winterTestAngles_lower)
    ultimately have "fst (last results) = \<bar>latitude\<bar>"
      by (simp add: a(2) winterCandidate_tilt)
    moreover have "\<forall>b\<in>set ?angles. \<not> winterQualifies fetch latitude longitude b"
      using none by (auto simp: find_None_iff set_results winterQualifies_def)
    ultimately show "results \<noteq> [] \<and> fst (last results) = \<bar>latitude\<bar>
           \<and> (\<forall>a\<in>set ?angles. \<not> winterQualifies fetch latitude longitude a)"
      using ne by blast
  }
qed

lemma winter_miss:
  assumes "freshEntry (winterTiltCache st (getCacheKey latitude longitude)) now = None"
  shows "getWinterPriorityTiltFromPVWatts fetch now later st latitude longitude =
     (let results = sort_key (\<lambda>(t, j, d). - t)
                      (map (winterCandidate fetch latitude longitude) (winterTestAngles latitude));
          calls = concat (map (snd \<circ> monthlyRequest fetch latitude longitude)
                      (winterTestAngles latitude))
      in case (case find juneCoversDecember results of
                 Some result \<Rightarrow> Some result
               | None \<Rightarrow> if results = [] then None else Some (last results)) of
           None \<Rightarrow>
             (\<lparr>WinterPriorityResult.tilt = min 90 (\<bar>latitude\<bar> + 15),
               decemberProduction = Some 0, juneProduction = Some 0, confidence = fallback\<rparr>,
              st, calls)
         | Some (t, june, dec) \<Rightarrow>
             (\<lparr>WinterPriorityResult.tilt = t, decemberProduction = dec,
               juneProduction = june, confidence = live\<rparr>,
              st\<lparr>winterTiltCache := (winterTiltCache st)(getCacheKey latitude longitude \<mapsto>
                    \<lparr>cache_entry.tilt = t, timestamp = later\<rparr>)\<rparr>,
              calls))"
proof -
  have cands: "map (fst \<circ> monthlyRequest fetch latitude longitude) (winterTestAngles latitude)
      = map (winterCandidate fetch latitude longitude) (winterTestAngles latitude)"
    by (simp add: winterCandidate_def)
  show ?thesis
    using assms
    by (simp add: getWinterPriorityTiltFromPVWatts_def winterSweep_def Let_def cands
        split: option.splits prod.splits)
qed

lemma winter_miss_empty: "freshEntry (winterTiltCache emptyCaches k) now = None"
  by (simp add: freshEntry_def emptyCaches_def)

lemmas winter_eval = winterQualifies_def winterCandidate_def monthlyRequest_def callPVWatts_def
  answer_def js_index_def juneCoversDecember_def Let_def

lemma candidates_polar_night:
  "map (winterCandidate service_polar_night 80 20) (winterTestAngles 80)
     = [(80, Some 350, Some 0), (85, Some 350, Some 0), (90, Some 350, Some 0)]"
  by (simp add: winterTestAngles_def service_polar_night_def winter_eval)

lemma qualifies_temperate:
  "winterQualifies service_temperate 40 20 40"
  "winterQualifies service_temperate 40 20 45"
  "winterQualifies service_temperate 40 20 50"
  "\<not> winterQualifies service_temperate 40 20 55"
  "\<not> winterQualifies service_temperate 40 20 60"
  "\<not> winterQualifies service_temperate 40 20 65"
  by (simp_all add: service_temperate_def winter_eval)

text \<open>
  C2, as stated, fails. At latitude 80 the tested angles are 80, 85 and 90. With a service
  that reports June 350 and December 0 at every tilt, every candidate has June at least
  December, so the claim's choice is the steepest angle, 90; the code requires a positive
  December yield as well, finds no candidate, and returns the shallowest angle, 80.
\<close>

theorem winter_priority_zero_december_counterexample:
  "map (winterCandidate service_polar_night 80 20) (winterTestAngles 80)
     = [(80, Some 350, Some 0), (85, Some 350, Some 0), (90, Some 350, Some 0)]
   \<and> spec_winter_tilt [(80, 350, 0), (85, 350, 0), (90, 350, 0)] = 90
   \<and> WinterPriorityResult.tilt
        (fst (getWinterPriorityTiltFromPVWatts service_polar_night 0 10 emptyCaches 80 20)) = 80"
proof -
  have "spec_winter_tilt [(80, 350, 0), (85, 350, 0), (90, 350, 0)] = 90"
    by (simp add: spec_winter_tilt_def)
  moreover have "WinterPriorityResult.tilt
        (fst (getWinterPriorityTiltFromPVWatts service_polar_night 0 10 emptyCaches 80 20)) = 80"
    by (simp add: winter_miss [OF winter_miss_empty] candidates_polar_night juneCoversDecember_def)
  ultimately show ?thesis
    using candidates_polar_night by blast
qed

text \<open>
  C2, amended. On a cache miss, for a latitude in \<open>[-90, 90]\<close>, the tilts requested are those
  of \<open>base\<close>, \<open>base + 5\<close>, ..., \<open>base + 25\<close> (\<open>base = |latitude|\<close>) that lie in \<open>[0, 90]\<close>.
  The returned tilt is one of them. When some tested angle has a June yield at least its
  December yield and a positive December yield, the returned tilt is the steepest such
  angle; when none has, it is \<open>base\<close>, the shallowest tested angle.
\<close>

theorem winter_priority_steepest_balanced_angle:
  assumes miss: "freshEntry (winterTiltCache st (getCacheKey latitude longitude)) now = None"
    and range: "\<bar>latitude\<bar> \<le> 90"
    and run: "getWinterPriorityTiltFromPVWatts fetch now later st latitude longitude = (r, st', calls)"
  shows "map query_tilt calls
           = filter (\<lambda>angle. 0 \<le> angle \<and> angle \<le> 90)
               (map (\<lambda>offset. \<bar>latitude\<bar> + offset) [0, 5, 10, 15, 20, 25])
       \<and> WinterPriorityResult.tilt r \<in> set (map query_tilt calls)
       \<and> ((\<exists>a\<in>set (map query_tilt calls). winterQualifies fetch latitude longitude a) \<longrightarrow>
            winterQualifies fetch latitude longitude (WinterPriorityResult.tilt r)
            \<and> (\<forall>a\<in>set (map query_tilt calls).
                  winterQualifies fetch latitude longitude a \<longrightarrow> a \<le> WinterPriorityResult.tilt r))
       \<and> ((\<forall>a\<in>set (map query_tilt calls). \<not> winterQualifies fetch latitude longitude a) \<longrightarrow>
            WinterPriorityResult.tilt r = \<bar>latitude\<bar>
            \<and> (\<forall>a\<in>set (map query_tilt calls). WinterPriorityResult.tilt r \<le> a))"
proof -
  let ?results = "sort_key (\<lambda>(t, j, d). - t)
                      (map (winterCandidate fetch latitude longitude) (winterTestAngles latitude))"
  note choice = winter_choice [where fetch = fetch and longitude = longitude, OF range]
  from run have tested: "map query_tilt calls = winterTestAngles latitude"
    using winter_sweep_calls [of fetch latitude longitude "winterTestAngles latitude"]
    by (auto simp: winter_miss [OF miss] Let_def split: option.splits if_splits)
  have angles: "map query_tilt calls
           = filter (\<lambda>angle. 0 \<le> angle \<and> angle \<le> 90)
               (map (\<lambda>offset. \<bar>latitude\<bar> + offset) [0, 5, 10, 15, 20, 25])"
    unfolding tested by (simp only: winterTestAngles_def Let_def)
  have rest: "WinterPriorityResult.tilt r \<in> set (winterTestAngles latitude)
       \<and> ((\<exists>a\<in>set (winterTestAngles latitude). winterQualifies fetch latitude longitude a) \<longrightarrow>
            winterQualifies fetch latitude longitude (WinterPriorityResult.tilt r)
            \<and> (\<forall>a\<in>set (winterTestAngles latitude).
                  winterQualifies fetch latitude longitude a \<longrightarrow> a \<le> WinterPriorityResult.tilt r))
       \<and> ((\<forall>a\<in>set (winterTestAngles latitude). \<not> winterQualifies fetch latitude longitude a) \<longrightarrow>
            WinterPriorityResult.tilt r = \<bar>latitude\<bar>
            \<and> (\<forall>a\<in>set (winterTestAngles latitude). WinterPriorityResult.tilt r \<le> a))"
  proof (cases "find juneCoversDecember ?results")
    case (Some x)
    from run Some have "WinterPriorityResult.tilt r = fst x"
      by (auto simp: winter_miss [OF miss] Let_def split: prod.splits)
    with choice(1) [OF Some] show ?thesis by auto
  next
    case None
    from choice(2) [OF None] have ne: "?results \<noteq> []"
      and base: "fst (last ?results) = \<bar>latitude\<bar>"
      and no: "\<forall>a\<in>set (winterTestAngles latitude). \<not> winterQualifies fetch latitude longitude a"
      by blast+
    from run None ne have "WinterPriorityResult.tilt r = fst (last ?results)"
      by (auto simp: winter_miss [OF miss] Let_def split: prod.splits)
    then have "WinterPriorityResult.tilt r = \<bar>latitude\<bar>" using base by simp
    then show ?thesis
      using no winterTestAngles_base [OF range] winterTestAngles_lower [of _ latitude] by auto
  qed
  show ?thesis
    using angles rest unfolding tested by blast
qed

text \<open>
  The amended C2 at latitude 40 with June and December yields meeting at tilt 50: the
  angles 40 to 65 are tested and 50 is returned.
\<close>

theorem winter_priority_steepest_balanced_angle_witness:
  "freshEntry (winterTiltCache emptyCaches (getCacheKey 40 20)) 0 = None
   \<and> \<bar>40 :: real\<bar> \<le> 90
   \<and> map query_tilt (snd (snd (getWinterPriorityTiltFromPVWatts service_temperate 0 10 emptyCaches 40 20)))
       = [40, 45, 50, 55, 60, 65]
   \<and> winterQualifies service_temperate 40 20 50
   \<and> \<not> winterQualifies service_temperate 40 20 55
   \<and> \<not> winterQualifies service_temperate 40 20 60
   \<and> \<not> winterQualifies service_temperate 40 20 65
   \<and> WinterPriorityResult.tilt
        (fst (getWinterPriorityTiltFromPVWatts service_temperate 0 10 emptyCaches 40 20)) = 50"
proof -
  obtain r st' calls where
    run: "getWinterPriorityTiltFromPVWatts service_temperate 0 10 emptyCaches 40 20 = (r, st', calls)"
    by (rule prod_cases3)
  have miss: "freshEntry (winterTiltCache emptyCaches (getCacheKey 40 20)) 0 = None"
    by (rule winter_miss_empty)
  have range: "\<bar>40 :: real\<bar> \<le> 90" by simp
  note inst = winter_priority_steepest_balanced_angle [OF miss range run]
  from inst have tested: "map query_tilt calls = [40, 45, 50, 55, 60, 65]"
    by simp
  from inst have mem: "WinterPriorityResult.tilt r \<in> set [40, 45, 50, 55, 60, 65]"
    unfolding tested by blast
  have some: "\<exists>a\<in>set (map query_tilt calls). winterQualifies service_temperate 40 20 a"
    unfolding tested using qualifies_temperate(3) by simp
  with inst have q: "winterQualifies service_temperate 40 20 (WinterPriorityResult.tilt r)"
    and top: "\<forall>a\<in>set (map query_tilt calls).
                winterQualifies service_temperate 40 20 a \<longrightarrow> a \<le> WinterPriorityResult.tilt r"
    by blast+
  from top have "50 \<le> WinterPriorityResult.tilt r"
    unfolding tested using qualifies_temperate(3) by simp
  with mem q qualifies_temperate(4-6) have r: "WinterPriorityResult.tilt r = 50"
    by auto
  show ?thesis
    unfolding run fst_conv snd_conv using miss range tested qualifies_temperate(3-6) r by blast
qed

end
